theory Spec2Isabelle
  imports Complex_Main "HOL-Library.Multiset" "HOL-Library.Sublist"
begin

section \<open>Values exchanged with the training framework\<close>

text \<open>
  Python floats (losses, evaluation scores): the finite values, the two infinities and
  not-a-number.  Rounding is not modelled; only the order and the NaN test matter to
  \<open>train\<close>.  Every comparison with NaN is false, as in IEEE 754.
\<close>

datatype fl = NaN | NegInf | Fin real | PosInf

fun fl_less :: "fl \<Rightarrow> fl \<Rightarrow> bool" where
  "fl_less NaN b = False"
| "fl_less a NaN = False"
| "fl_less NegInf b = (b \<noteq> NegInf)"
| "fl_less (Fin x) (Fin y) = (x < y)"
| "fl_less (Fin x) PosInf = True"
| "fl_less (Fin x) NegInf = False"
| "fl_less PosInf b = False"

definition fl_le :: "fl \<Rightarrow> fl \<Rightarrow> bool" where
  "fl_le a b = (fl_less a b \<or> (a = b \<and> a \<noteq> NaN))"

definition isnan :: "fl \<Rightarrow> bool" where
  "isnan x = (x = NaN)"

datatype device = Cuda | Cpu

record 't tensor =
  tdevice :: device
  tdata :: 't

definition cpu :: "'t tensor \<Rightarrow> 't tensor" where
  "cpu v = v\<lparr>tdevice := Cpu\<rparr>"

type_synonym 't batch = "'t \<times> 't \<times> 't \<times> 't"

datatype error = ZeroDivisionError | UnboundLocalError

text \<open>Python's \<open>%\<close> on integers: the sign follows the divisor, a zero divisor raises.\<close>

definition py_mod :: "int \<Rightarrow> int \<Rightarrow> error + int" where
  "py_mod a b = (if b = 0 then Inl ZeroDivisionError else Inr (a mod b))"

text \<open>\<open>int(x)\<close> truncates towards zero; \<open>range(n)\<close> is empty for \<open>n \<le> 0\<close>.\<close>

definition py_int :: "real \<Rightarrow> int" where
  "py_int x = (if x < 0 then \<lceil>x\<rceil> else \<lfloor>x\<rfloor>)"

definition py_range :: "int \<Rightarrow> nat list" where
  "py_range n = [0..<nat n]"

text \<open>\<open>os.path.join\<close> on two components (POSIX rules).\<close>

definition path_join :: "string \<Rightarrow> string \<Rightarrow> string" where
  "path_join a b =
     (if b \<noteq> [] \<and> hd b = CHR ''/'' then b
      else if a = [] \<or> last a = CHR ''/'' then a @ b
      else a @ ''/'' @ b)"

text \<open>\<open>nd in n\<close> on strings: \<open>nd\<close> occurs in \<open>n\<close> as a contiguous substring.\<close>

fun str_in :: "string \<Rightarrow> string \<Rightarrow> bool" where
  "str_in nd [] = (nd = [])"
| "str_in nd (c # cs) = (prefix nd (c # cs) \<or> str_in nd cs)"

section \<open>Arguments, calls and collaborators\<close>

record args =
  train_file :: string
  predict_file :: string
  output_dir :: string
  do_train :: bool
  do_predict :: bool
  weight_decay :: real
  learning_rate :: real
  adam_epsilon :: real
  warmup_steps :: int
  num_train_epochs :: real
  gradient_accumulation_steps :: int
  max_grad_norm :: real
  eval_period :: int
  n_gpu :: int
  wait_step :: int
  num_beams :: int
  max_output_length :: int

record 't param_group =
  pg_params :: "'t tensor list"
  pg_weight_decay :: real

datatype dataset = TrainData | DevData

text \<open>
  \<open>model if args.n_gpu==1 else model.module\<close>: the object \<open>generate\<close> is called on.
  Whether the object passed as \<open>model\<close> has an attribute \<open>module\<close> is decided by its
  class, which is not part of \<open>train.py\<close>; the access is taken to succeed.
\<close>

datatype target = Model | ModelModule

text \<open>
  The arguments of the \<open>logger.info\<close> calls.  The format strings are not modelled, and
  the scores are recorded before their multiplication by 100.
\<close>

datatype logmsg =
    StartingTraining
  | StopNaN fl
  | StepReport int fl string fl nat
  | SavingBest string fl fl nat int
  | LoadingCheckpoint string
  | PredictReport string string fl

text \<open>
  Every call that \<open>run\<close>, \<open>train\<close> and \<open>inference\<close> make into the framework, the
  dataset objects, the logger and the file system, in the order they are made.
  \<open>LoadStateDict\<close> is the framework's call that reads a checkpoint back.
\<close>

datatype 't event =
    Log logmsg
  | TokenizerFromPretrained string
  | QADataNew dataset string
  | LoadDataset dataset
  | LoadDataloader dataset
  | ModelFromPretrained string
  | ModelTo device
  | AdamWNew "'t param_group list" real real
  | SchedulerNew int int
  | ModelTrainMode
  | ModelEvalMode
  | BatchTo device "'t batch"
  | Forward 't 't 't 't bool
  | Backward fl
  | ClipGradNorm real
  | OptimizerStep
  | SchedulerStep
  | ZeroGrad
  | Generate target 't 't int int bool
  | DecodeBatch 't
  | SavePredictions "string list list"
  | Evaluate "string list list"
  | TorchSave "(string \<times> 't tensor) list" string
  | LoadStateDict string

text \<open>
  The collaborators that are not part of \<open>train.py\<close> (the model, the two \<open>QAData\<close>
  objects, \<open>torch\<close>, \<open>numpy\<close>).  What a call returns may depend on everything done
  before it, so each answer is a function of the calls made so far.
\<close>

record 't env =
  cuda_available :: bool
  train_dataloader :: "'t event list \<Rightarrow> 't batch list"
  dev_dataloader :: "'t event list \<Rightarrow> 't batch list"
  forward :: "'t event list \<Rightarrow> 't batch \<Rightarrow> fl"
  generate :: "'t event list \<Rightarrow> target \<Rightarrow> 't \<Rightarrow> 't \<Rightarrow> int \<Rightarrow> int \<Rightarrow> bool \<Rightarrow> 't"
  decode_batch :: "'t event list \<Rightarrow> 't \<Rightarrow> string list"
  evaluate :: "'t event list \<Rightarrow> string list list \<Rightarrow> fl list"
  np_mean :: "fl list \<Rightarrow> fl"
  state_dict :: "'t event list \<Rightarrow> (string \<times> 't tensor) list"
  named_parameters :: "'t event list \<Rightarrow> (string \<times> 't tensor) list"
  metric :: string
  data_type :: string
  dev_data_args :: args

definition torch_device :: "'t env \<Rightarrow> device" where
  "torch_device env = (if cuda_available env then Cuda else Cpu)"

section \<open>inference\<close>

text \<open>
  The loop of \<open>inference\<close> over \<open>dev_data.dataloader\<close>: the calls so far and the
  predictions collected so far go in, and come out extended.
\<close>

fun inference_loop ::
  "'t env \<Rightarrow> target \<Rightarrow> 't batch list \<Rightarrow> 't event list \<times> string list list
     \<Rightarrow> 't event list \<times> string list list" where
  "inference_loop env model [] (h, predictions) = (h, predictions)"
| "inference_loop env model (batch # rest) (h, predictions) =
     (let h1 = h @ [BatchTo (torch_device env) batch];
          num_beams' = num_beams (dev_data_args env);
          max_length = max_output_length (dev_data_args env);
          outputs = generate env h1 model (fst batch) (fst (snd batch))
                      num_beams' max_length True;
          h2 = h1 @ [Generate model (fst batch) (fst (snd batch)) num_beams' max_length True];
          pred = decode_batch env h2 outputs;
          h3 = h2 @ [DecodeBatch outputs]
      in inference_loop env model rest (h3, predictions @ [pred]))"

definition inference ::
  "'t env \<Rightarrow> 't event list \<Rightarrow> target \<Rightarrow> bool \<Rightarrow> fl \<times> 't event list" where
  "inference env h model save_predictions =
     (let (h1, predictions) = inference_loop env model (dev_dataloader env h) (h, []);
          h2 = (if save_predictions then h1 @ [SavePredictions predictions] else h1);
          h3 = h2 @ [Evaluate predictions]
      in (np_mean env (evaluate env h2 predictions), h3))"

text \<open>The default of the parameter \<open>save_predictions\<close> in \<open>def inference\<close>.\<close>

definition save_predictions_default :: bool where
  "save_predictions_default = True"

section \<open>train\<close>

text \<open>
  The local variables of \<open>train\<close>, with the calls made so far.  \<open>wait_step\<close> is not
  assigned before the loop: \<open>None\<close> is the unbound name.
\<close>

record 't tstate =
  trace :: "'t event list"
  global_step :: int
  train_losses :: "fl list"
  best_accuracy :: fl
  stop_training :: bool
  wait_step_var :: "int option"

text \<open>How a piece of the loop body ends: it falls through, breaks, or raises.\<close>

datatype status = Next | Broke | Raised error

definition emit :: "'t event list \<Rightarrow> 't tstate \<Rightarrow> 't tstate" where
  "emit es st = st\<lparr>trace := trace st @ es\<rparr>"

text \<open>Lines 79 to 101: the body of \<open>if global_step % args.eval_period == 0\<close>.\<close>

definition evaluation :: "'t env \<Rightarrow> args \<Rightarrow> nat \<Rightarrow> 't tstate \<Rightarrow> status \<times> 't tstate" where
  "evaluation env args epoch st =
     (let st1 = emit [ModelEvalMode] st;
          (curr_em, h) = inference env (trace st1)
                           (if n_gpu args = 1 then Model else ModelModule)
                           save_predictions_default;
          st2 = st1\<lparr>trace := h\<rparr>;
          st3 = emit [Log (StepReport (global_step st2) (np_mean env (train_losses st2))
                             (metric env) curr_em epoch)] st2;
          st4 = st3\<lparr>train_losses := []\<rparr>
      in if fl_less (best_accuracy st4) curr_em then
           (let model_state_dict = map (\<lambda>(k, v). (k, cpu v)) (state_dict env (trace st4));
                st5 = emit [TorchSave model_state_dict
                              (path_join (output_dir args) ''best-model.pt''),
                            Log (SavingBest (metric env) (best_accuracy st4) curr_em epoch
                                   (global_step st4))] st4;
                st6 = st5\<lparr>best_accuracy := curr_em, stop_training := False,
                          wait_step_var := Some 0\<rparr>
            in (Next, emit [ModelTrainMode] st6))
         else
           (case wait_step_var st4 of
              None \<Rightarrow> (Raised UnboundLocalError, st4)
            | Some w \<Rightarrow>
                (let st5 = st4\<lparr>wait_step_var := Some (w + 1)\<rparr>
                 in if w + 1 \<ge> wait_step args
                    then (Broke, st5\<lparr>stop_training := True\<rparr>)
                    else (Next, emit [ModelTrainMode] st5))))"

text \<open>
  Lines 58 to 76: the forward pass, the NaN test, the backward pass and the optimizer
  update of one batch.
\<close>

definition update_step :: "'t env \<Rightarrow> args \<Rightarrow> 't tstate \<Rightarrow> 't batch \<Rightarrow> status \<times> 't tstate" where
  "update_step env args st batch =
     (let st1 = st\<lparr>global_step := global_step st + 1\<rparr>;
          st2 = emit [BatchTo (torch_device env) batch] st1;
          loss = forward env (trace st2) batch;
          st3 = emit [Forward (fst batch) (fst (snd batch)) (fst (snd (snd batch)))
                        (snd (snd (snd batch))) True] st2
      in if isnan loss then
           (Broke, (emit [Log (StopNaN loss)] st3)\<lparr>stop_training := True\<rparr>)
         else
           (let st4 = st3\<lparr>train_losses := train_losses st3 @ [loss]\<rparr>;
                st5 = emit [Backward loss] st4
            in case py_mod (global_step st5) (gradient_accumulation_steps args) of
                 Inl e \<Rightarrow> (Raised e, st5)
               | Inr r \<Rightarrow>
                   (Next, if r = 0
                          then emit [ClipGradNorm (max_grad_norm args), OptimizerStep,
                                     SchedulerStep, ZeroGrad] st5
                          else st5)))"

text \<open>Lines 58 to 101: the body of \<open>for batch in train_data.dataloader\<close>.\<close>

definition train_batch ::
  "'t env \<Rightarrow> args \<Rightarrow> nat \<Rightarrow> 't tstate \<Rightarrow> 't batch \<Rightarrow> status \<times> 't tstate" where
  "train_batch env args epoch st batch =
     (case update_step env args st batch of
        (Next, st') \<Rightarrow>
          (case py_mod (global_step st') (eval_period args) of
             Inl e \<Rightarrow> (Raised e, st')
           | Inr r \<Rightarrow> if r = 0 then evaluation env args epoch st' else (Next, st'))
      | (Broke, st') \<Rightarrow> (Broke, st')
      | (Raised e, st') \<Rightarrow> (Raised e, st'))"

text \<open>The inner loop: it stops at the first \<open>break\<close> or exception.\<close>

fun batch_loop ::
  "'t env \<Rightarrow> args \<Rightarrow> nat \<Rightarrow> 't batch list \<Rightarrow> 't tstate \<Rightarrow> status \<times> 't tstate" where
  "batch_loop env args epoch [] st = (Next, st)"
| "batch_loop env args epoch (batch # rest) st =
     (case train_batch env args epoch st batch of
        (Next, st') \<Rightarrow> batch_loop env args epoch rest st'
      | (Broke, st') \<Rightarrow> (Broke, st')
      | (Raised e, st') \<Rightarrow> (Raised e, st'))"

text \<open>
  The outer loop with its \<open>if stop_training: break\<close>.  Its result is \<open>Next\<close> when
  \<open>train\<close> returns and \<open>Raised\<close> when an exception leaves it.
\<close>

fun epoch_loop ::
  "'t env \<Rightarrow> args \<Rightarrow> nat list \<Rightarrow> 't tstate \<Rightarrow> status \<times> 't tstate" where
  "epoch_loop env args [] st = (Next, st)"
| "epoch_loop env args (epoch # rest) st =
     (case batch_loop env args epoch (train_dataloader env (trace st)) st of
        (Raised e, st') \<Rightarrow> (Raised e, st')
      | (s, st') \<Rightarrow> if stop_training st' then (Next, st') else epoch_loop env args rest st')"

definition train_init :: "'t event list \<Rightarrow> 't tstate" where
  "train_init h =
     \<lparr>trace = h @ [ModelTrainMode, Log StartingTraining], global_step = 0,
      train_losses = [], best_accuracy = Fin (- 1), stop_training = False,
      wait_step_var = None\<rparr>"

definition train :: "'t env \<Rightarrow> args \<Rightarrow> 't event list \<Rightarrow> status \<times> 't tstate" where
  "train env args h =
     epoch_loop env args (py_range (py_int (num_train_epochs args))) (train_init h)"

section \<open>run\<close>

definition no_decay :: "string list" where
  "no_decay = [''bias'', ''LayerNorm.weight'']"

definition optimizer_grouped_parameters ::
  "'t env \<Rightarrow> args \<Rightarrow> 't event list \<Rightarrow> 't param_group list" where
  "optimizer_grouped_parameters env args h =
     [\<lparr>pg_params = map snd (filter (\<lambda>(n, p). \<not> list_ex (\<lambda>nd. str_in nd n) no_decay)
                                  (named_parameters env h)),
       pg_weight_decay = weight_decay args\<rparr>,
      \<lparr>pg_params = map snd (filter (\<lambda>(n, p). list_ex (\<lambda>nd. str_in nd n) no_decay)
                                  (named_parameters env h)),
       pg_weight_decay = 0\<rparr>]"

text \<open>Lines 12 to 24: the tokenizer, the two datasets and the pretrained model.\<close>

definition run_setup :: "'t env \<Rightarrow> args \<Rightarrow> 't event list" where
  "run_setup env args =
     [TokenizerFromPretrained ''t5-large'',
      QADataNew TrainData (train_file args),
      QADataNew DevData (predict_file args),
      LoadDataset TrainData, LoadDataloader TrainData,
      LoadDataset DevData, LoadDataloader DevData,
      ModelFromPretrained ''t5-large'', ModelTo (torch_device env)]"

text \<open>Lines 28 to 36: the optimizer and the scheduler.\<close>

definition optimizer_setup :: "'t env \<Rightarrow> args \<Rightarrow> 't event list \<Rightarrow> 't event list" where
  "optimizer_setup env args h =
     [AdamWNew (optimizer_grouped_parameters env args h) (learning_rate args)
        (adam_epsilon args),
      SchedulerNew (warmup_steps args) 100000]"

text \<open>
  \<open>run\<close>.  An exception in \<open>train\<close> leaves \<open>run\<close>; otherwise the result is \<open>Next\<close>,
  with the calls made.
\<close>

definition run :: "'t env \<Rightarrow> args \<Rightarrow> status \<times> 't event list" where
  "run env args =
     (let h0 = run_setup env args;
          (s, h1) =
            (if do_train args then
               (let (s', st) = train env args (h0 @ optimizer_setup env args h0)
                in (s', trace st))
             else (Next, h0))
      in case s of
           Raised e \<Rightarrow> (Raised e, h1)
         | _ \<Rightarrow>
           if do_predict args then
             (let checkpoint = path_join (output_dir args) ''best-model.pt'';
                  h2 = h1 @ [Log (LoadingCheckpoint checkpoint), ModelEvalMode];
                  (ems, h3) = inference env h2 Model True
              in (Next, h3 @ [Log (PredictReport (metric env) (data_type env) ems)]))
           else (Next, h1))"

section \<open>Notions used to state the properties\<close>

text \<open>
  An evaluation entered in state \<open>st\<close> (line 79): the object \<open>generate\<close> is called on,
  the result of its call of \<open>inference\<close> (the score and the calls made up to its
  return), and its log line.
\<close>

definition eval_target :: "args \<Rightarrow> target" where
  "eval_target args = (if n_gpu args = 1 then Model else ModelModule)"

definition eval_inference :: "'t env \<Rightarrow> args \<Rightarrow> 't tstate \<Rightarrow> fl \<times> 't event list" where
  "eval_inference env args st =
     inference env (trace st @ [ModelEvalMode]) (eval_target args) save_predictions_default"

definition eval_report :: "'t env \<Rightarrow> args \<Rightarrow> nat \<Rightarrow> 't tstate \<Rightarrow> 't event" where
  "eval_report env args epoch st =
     Log (StepReport (global_step st) (np_mean env (train_losses st)) (metric env)
            (fst (eval_inference env args st)) epoch)"

text \<open>The batch body, entered in state \<open>st\<close>, gets to line 79: a periodic evaluation.\<close>

definition evaluates :: "'t env \<Rightarrow> args \<Rightarrow> 't tstate \<Rightarrow> 't batch \<Rightarrow> bool" where
  "evaluates env args st batch =
     (fst (update_step env args st batch) = Next \<and> eval_period args \<noteq> 0
      \<and> (global_step st + 1) mod eval_period args = 0)"

text \<open>The calls of an evaluation after its log line (lines 88 to 101).\<close>

definition eval_tail :: "'t env \<Rightarrow> args \<Rightarrow> nat \<Rightarrow> 't tstate \<Rightarrow> 't event list" where
  "eval_tail env args epoch st =
     (if fl_less (best_accuracy st) (fst (eval_inference env args st)) then
        [TorchSave
           (map (\<lambda>(k, v). (k, cpu v))
              (state_dict env (snd (eval_inference env args st) @ [eval_report env args epoch st])))
           (path_join (output_dir args) ''best-model.pt''),
         Log (SavingBest (metric env) (best_accuracy st) (fst (eval_inference env args st))
                epoch (global_step st)),
         ModelTrainMode]
      else
        (case wait_step_var st of
           None \<Rightarrow> []
         | Some w \<Rightarrow> if wait_step args \<le> w + 1 then [] else [ModelTrainMode]))"

text \<open>
  Lines 40 to 43: the calls made so far, then the log line that names the checkpoint and
  the switch to evaluation mode.  \<open>inference\<close> is entered after these.
\<close>

definition predict_history :: "args \<Rightarrow> 't event list \<Rightarrow> 't event list" where
  "predict_history args h =
     h @ [Log (LoadingCheckpoint (path_join (output_dir args) ''best-model.pt'')),
          ModelEvalMode]"

text \<open>The calls made by one step: those in the trace after it and not before it.\<close>

definition new_calls :: "'t tstate \<Rightarrow> 't tstate \<Rightarrow> 't event list" where
  "new_calls st st' = drop (length (trace st)) (trace st')"

text \<open>Kinds of calls.\<close>

fun inference_call :: "'t event \<Rightarrow> bool" where
  "inference_call (BatchTo d b) = True"
| "inference_call (Generate m i a nb ml es) = True"
| "inference_call (DecodeBatch out) = True"
| "inference_call (SavePredictions ps) = True"
| "inference_call (Evaluate ps) = True"
| "inference_call e = False"

fun is_generate :: "'t event \<Rightarrow> bool" where
  "is_generate (Generate m i a nb ml es) = True"
| "is_generate e = False"

fun is_evaluate :: "'t event \<Rightarrow> bool" where
  "is_evaluate (Evaluate ps) = True"
| "is_evaluate e = False"

fun is_save_predictions :: "'t event \<Rightarrow> bool" where
  "is_save_predictions (SavePredictions ps) = True"
| "is_save_predictions e = False"

fun is_torch_save :: "'t event \<Rightarrow> bool" where
  "is_torch_save (TorchSave d p) = True"
| "is_torch_save e = False"

fun is_load :: "'t event \<Rightarrow> bool" where
  "is_load (LoadStateDict p) = True"
| "is_load e = False"

fun is_report :: "'t event \<Rightarrow> bool" where
  "is_report (Log (StepReport gs m mt em ep)) = True"
| "is_report e = False"

text \<open>The calls of lines 58 to 76.\<close>

fun step_call :: "'t event \<Rightarrow> bool" where
  "step_call (BatchTo d b) = True"
| "step_call (Forward i a di da tr) = True"
| "step_call (Log (StopNaN l)) = True"
| "step_call (Backward l) = True"
| "step_call (ClipGradNorm g) = True"
| "step_call OptimizerStep = True"
| "step_call SchedulerStep = True"
| "step_call ZeroGrad = True"
| "step_call e = False"

text \<open>The backward pass and the calls of the optimizer update.\<close>

fun update_call :: "'t event \<Rightarrow> bool" where
  "update_call (Backward l) = True"
| "update_call (ClipGradNorm g) = True"
| "update_call OptimizerStep = True"
| "update_call SchedulerStep = True"
| "update_call ZeroGrad = True"
| "update_call e = False"

text \<open>
  The losses that went through a backward pass since the last evaluation log line, or
  since the start of training when there is none, read off the calls in order.
\<close>

fun recorded :: "fl list \<Rightarrow> 't event list \<Rightarrow> fl list" where
  "recorded acc [] = acc"
| "recorded acc (Log (StepReport gs m mt em ep) # es) = recorded [] es"
| "recorded acc (Log StartingTraining # es) = recorded [] es"
| "recorded acc (Backward l # es) = recorded (acc @ [l]) es"
| "recorded acc (e # es) = recorded acc es"

definition recorded_losses :: "'t event list \<Rightarrow> fl list" where
  "recorded_losses h = recorded [] h"

text \<open>
  The states of a call of \<open>train\<close> that was entered after the calls \<open>h\<close>: the initial
  one, and the one after a batch body run in such a state.
\<close>

inductive reachable :: "'t env \<Rightarrow> args \<Rightarrow> 't event list \<Rightarrow> 't tstate \<Rightarrow> bool"
  for env :: "'t env" and args :: args and h :: "'t event list" where
  start: "reachable env args h (train_init h)"
| step: "reachable env args h st \<Longrightarrow> train_batch env args epoch st batch = (s, st')
           \<Longrightarrow> reachable env args h st'"

section \<open>Concrete collaborators for worked runs\<close>

text \<open>A mean for the worked runs: NaN on the empty list and on any non-finite entry.\<close>

fun fin_values :: "fl list \<Rightarrow> real list option" where
  "fin_values [] = Some []"
| "fin_values (Fin x # xs) = map_option (\<lambda>ys. x # ys) (fin_values xs)"
| "fin_values (v # xs) = None"

definition mean_ex :: "fl list \<Rightarrow> fl" where
  "mean_ex xs =
     (case fin_values xs of
        None \<Rightarrow> NaN
      | Some ys \<Rightarrow> if ys = [] then NaN else Fin (sum_list ys / real (length ys)))"

definition args_ex :: args where
  "args_ex =
     \<lparr>train_file = ''train.json'', predict_file = ''dev.json'', output_dir = ''out'',
      do_train = True, do_predict = True, weight_decay = 1 / 100, learning_rate = 1 / 10000,
      adam_epsilon = 1 / 100000000, warmup_steps = 0, num_train_epochs = 3,
      gradient_accumulation_steps = 2, max_grad_norm = 1, eval_period = 2, n_gpu = 1,
      wait_step = 1, num_beams = 4, max_output_length = 20\<rparr>"

text \<open>
  Two training batches, one dev batch, a constant loss and a constant score of 1 for
  every prediction.
\<close>

definition env_ex :: "nat env" where
  "env_ex =
     \<lparr>cuda_available = False,
      train_dataloader = (\<lambda>h. [(1, 2, 3, 4), (5, 6, 7, 8)]),
      dev_dataloader = (\<lambda>h. [(9, 10, 11, 12)]),
      forward = (\<lambda>h b. Fin 1),
      generate = (\<lambda>h m ids mask nb ml es. ids + mask),
      decode_batch = (\<lambda>h out. [''answer'']),
      evaluate = (\<lambda>h ps. map (\<lambda>p. Fin 1) ps),
      np_mean = mean_ex,
      state_dict = (\<lambda>h. [(''shared.weight'', \<lparr>tdevice = Cuda, tdata = 7\<rparr>)]),
      named_parameters =
        (\<lambda>h. [(''shared.weight'', \<lparr>tdevice = Cuda, tdata = 7\<rparr>),
               (''dense.bias'', \<lparr>tdevice = Cuda, tdata = 8\<rparr>)]),
      metric = ''EM'', data_type = ''dev'', dev_data_args = args_ex\<rparr>"

text \<open>The same, with a model whose loss is NaN.\<close>

definition env_nan :: "nat env" where
  "env_nan = env_ex\<lparr>forward := (\<lambda>h b. NaN)\<rparr>"

text \<open>The same, with an empty dev set: the mean of no scores is NaN.\<close>

definition env_empty_dev :: "nat env" where
  "env_empty_dev = env_ex\<lparr>dev_dataloader := (\<lambda>h. [])\<rparr>"

text \<open>Prediction only.\<close>

definition args_predict :: args where
  "args_predict = args_ex\<lparr>do_train := False\<rparr>"

text \<open>An optimizer update and an evaluation on every step.\<close>

definition args_every :: args where
  "args_every = args_ex\<lparr>gradient_accumulation_steps := 1, eval_period := 1\<rparr>"

text \<open>A state after an improving evaluation, and the state after the first batch of a run.\<close>

definition st_improved :: "nat tstate" where
  "st_improved = (train_init [])\<lparr>global_step := 2, best_accuracy := Fin 1,
                                 wait_step_var := Some 0\<rparr>"

definition st_after_one :: "nat env \<Rightarrow> nat tstate" where
  "st_after_one env = snd (train_batch env args_ex 0 (train_init []) (1, 2, 3, 4))"

section \<open>The shape of a step\<close>

subsection \<open>The batch body and the evaluation, case by case\<close>

lemma batch_loop_append:
  "batch_loop env args epoch (pre @ rest) st =
     (case batch_loop env args epoch pre st of
        (Next, st') \<Rightarrow> batch_loop env args epoch rest st'
      | (Broke, st') \<Rightarrow> (Broke, st')
      | (Raised e, st') \<Rightarrow> (Raised e, st'))"
proof (induction pre arbitrary: st)
  case Nil
  show ?case by simp
next
  case (Cons b pre)
  show ?case
  proof (cases "train_batch env args epoch st b")
    case (Pair s st')
    then show ?thesis using Cons.IH [of st'] by (cases s) simp_all
  qed
qed

lemma update_step_nan:
  assumes "isnan (forward env (trace st @ [BatchTo (torch_device env) batch]) batch)"
  shows "update_step env args st batch =
     (Broke,
      st\<lparr>trace := trace st @
            [BatchTo (torch_device env) batch,
             Forward (fst batch) (fst (snd batch)) (fst (snd (snd batch)))
               (snd (snd (snd batch))) True,
             Log (StopNaN NaN)],
         global_step := global_step st + 1,
         stop_training := True\<rparr>)"
  using assms by (simp add: update_step_def emit_def Let_def isnan_def)

lemma evaluation_cases:
  "evaluation env args epoch st =
     (let h = snd (eval_inference env args st) @ [eval_report env args epoch st];
          curr = fst (eval_inference env args st)
      in if fl_less (best_accuracy st) curr then
           (Next,
            st\<lparr>trace := h @
                  [TorchSave (map (\<lambda>(k, v). (k, cpu v)) (state_dict env h))
                     (path_join (output_dir args) ''best-model.pt''),
                   Log (SavingBest (metric env) (best_accuracy st) curr epoch (global_step st)),
                   ModelTrainMode],
               train_losses := [], best_accuracy := curr, stop_training := False,
               wait_step_var := Some 0\<rparr>)
         else
           (case wait_step_var st of
              None \<Rightarrow> (Raised UnboundLocalError, st\<lparr>trace := h, train_losses := []\<rparr>)
            | Some w \<Rightarrow>
                if wait_step args \<le> w + 1
                then (Broke, st\<lparr>trace := h, train_losses := [],
                                wait_step_var := Some (w + 1), stop_training := True\<rparr>)
                else (Next, st\<lparr>trace := h @ [ModelTrainMode], train_losses := [],
                               wait_step_var := Some (w + 1)\<rparr>)))"
  by (simp add: evaluation_def eval_inference_def eval_report_def eval_target_def emit_def
        Let_def case_prod_unfold split: option.splits)

lemma update_step_loss:
  assumes "forward env (trace st @ [BatchTo (torch_device env) batch]) batch = loss"
      and "\<not> isnan loss"
  shows "update_step env args st batch =
     (if gradient_accumulation_steps args = 0 then Raised ZeroDivisionError else Next,
      st\<lparr>trace := trace st @
            [BatchTo (torch_device env) batch,
             Forward (fst batch) (fst (snd batch)) (fst (snd (snd batch)))
               (snd (snd (snd batch))) True,
             Backward loss] @
            (if gradient_accumulation_steps args \<noteq> 0
                \<and> (global_step st + 1) mod gradient_accumulation_steps args = 0
             then [ClipGradNorm (max_grad_norm args), OptimizerStep, SchedulerStep, ZeroGrad]
             else []),
         global_step := global_step st + 1,
         train_losses := train_losses st @ [loss]\<rparr>)"
  using assms by (simp add: update_step_def emit_def Let_def py_mod_def)

lemma inference_loop_trace:
  "\<exists>es qs. inference_loop env m bs (h, ps) = (h @ es, ps @ qs)
     \<and> list_all inference_call es
     \<and> (\<forall>p. SavePredictions p \<notin> set es) \<and> (\<forall>p. Evaluate p \<notin> set es)
     \<and> filter is_generate es =
         map (\<lambda>b. Generate m (fst b) (fst (snd b)) (num_beams (dev_data_args env))
                    (max_output_length (dev_data_args env)) True) bs
     \<and> length qs = length bs"
proof (induction bs arbitrary: h ps)
  case Nil
  show ?case by simp
next
  case (Cons b bs)
  let ?h1 = "h @ [BatchTo (torch_device env) b]"
  let ?g = "Generate m (fst b) (fst (snd b)) (num_beams (dev_data_args env))
              (max_output_length (dev_data_args env)) True"
  let ?out = "generate env ?h1 m (fst b) (fst (snd b)) (num_beams (dev_data_args env))
              (max_output_length (dev_data_args env)) True"
  let ?h3 = "?h1 @ [?g, DecodeBatch ?out]"
  let ?ps = "ps @ [decode_batch env (?h1 @ [?g]) ?out]"
  from Cons.IH [of ?h3 ?ps] obtain es qs where
    IH: "inference_loop env m bs (?h3, ?ps) = (?h3 @ es, ?ps @ qs)"
      "list_all inference_call es"
      "\<forall>p. SavePredictions p \<notin> set es" "\<forall>p. Evaluate p \<notin> set es"
      "filter is_generate es =
         map (\<lambda>b. Generate m (fst b) (fst (snd b)) (num_beams (dev_data_args env))
                    (max_output_length (dev_data_args env)) True) bs"
      "length qs = length bs"
    by blast
  have "inference_loop env m (b # bs) (h, ps) = inference_loop env m bs (?h3, ?ps)"
    by (simp add: Let_def)
  with IH(1) have
    "inference_loop env m (b # bs) (h, ps) =
       (h @ ([BatchTo (torch_device env) b, ?g, DecodeBatch ?out] @ es),
        ps @ (decode_batch env (?h1 @ [?g]) ?out # qs))"
    by (simp del: inference_loop.simps)
  moreover have "list_all inference_call ([BatchTo (torch_device env) b, ?g, DecodeBatch ?out] @ es)"
    using IH(2) by simp
  moreover have "\<forall>p. SavePredictions p \<notin> set ([BatchTo (torch_device env) b, ?g, DecodeBatch ?out] @ es)"
    using IH(3) by simp
  moreover have "\<forall>p. Evaluate p \<notin> set ([BatchTo (torch_device env) b, ?g, DecodeBatch ?out] @ es)"
    using IH(4) by simp
  moreover have "filter is_generate ([BatchTo (torch_device env) b, ?g, DecodeBatch ?out] @ es) =
         map (\<lambda>b. Generate m (fst b) (fst (snd b)) (num_beams (dev_data_args env))
                    (max_output_length (dev_data_args env)) True) (b # bs)"
    using IH(5) by simp
  moreover have "length (decode_batch env (?h1 @ [?g]) ?out # qs) = length (b # bs)"
    using IH(6) by simp
  ultimately show ?case by blast
qed

lemma inference_trace:
  "\<exists>es predictions h'.
       inference env h m save =
         (np_mean env (evaluate env h' predictions),
          h @ es @ (if save then [SavePredictions predictions] else []) @ [Evaluate predictions])
     \<and> list_all inference_call es
     \<and> (\<forall>p. SavePredictions p \<notin> set es) \<and> (\<forall>p. Evaluate p \<notin> set es)
     \<and> filter is_generate es =
         map (\<lambda>b. Generate m (fst b) (fst (snd b)) (num_beams (dev_data_args env))
                    (max_output_length (dev_data_args env)) True) (dev_dataloader env h)
     \<and> length predictions = length (dev_dataloader env h)
     \<and> inference_loop env m (dev_dataloader env h) (h, []) = (h @ es, predictions)"
proof -
  from inference_loop_trace [of env m "dev_dataloader env h" h "[]"] obtain es qs where
    L: "inference_loop env m (dev_dataloader env h) (h, []) = (h @ es, qs)"
      "list_all inference_call es"
      "\<forall>p. SavePredictions p \<notin> set es" "\<forall>p. Evaluate p \<notin> set es"
      "filter is_generate es =
         map (\<lambda>b. Generate m (fst b) (fst (snd b)) (num_beams (dev_data_args env))
                    (max_output_length (dev_data_args env)) True) (dev_dataloader env h)"
      "length qs = length (dev_dataloader env h)"
    unfolding append_Nil by blast
  have "inference env h m save =
         (np_mean env (evaluate env (h @ es @ (if save then [SavePredictions qs] else [])) qs),
          h @ es @ (if save then [SavePredictions qs] else []) @ [Evaluate qs])"
    using L(1) by (simp add: inference_def Let_def)
  with L show ?thesis by blast
qed

lemmas run_defs = train_def train_init_def py_range_def py_int_def train_batch_def
  update_step_def evaluation_def inference_def emit_def torch_device_def isnan_def py_mod_def
  save_predictions_default_def path_join_def cpu_def new_calls_def Let_def upt_rec

lemmas ex_defs = env_ex_def env_nan_def env_empty_dev_def args_ex_def mean_ex_def

lemma eval_inference_trace:
  "\<exists>ies predictions h'.
       eval_inference env args st =
         (np_mean env (evaluate env h' predictions),
          trace st @ [ModelEvalMode] @ ies @ [SavePredictions predictions, Evaluate predictions])
     \<and> list_all inference_call ies
     \<and> (\<forall>p. SavePredictions p \<notin> set ies) \<and> (\<forall>p. Evaluate p \<notin> set ies)
     \<and> filter is_generate ies =
         map (\<lambda>b. Generate (eval_target args) (fst b) (fst (snd b))
                    (num_beams (dev_data_args env))
                    (max_output_length (dev_data_args env)) True)
           (dev_dataloader env (trace st @ [ModelEvalMode]))
     \<and> length predictions = length (dev_dataloader env (trace st @ [ModelEvalMode]))
     \<and> inference_loop env (eval_target args) (dev_dataloader env (trace st @ [ModelEvalMode]))
           (trace st @ [ModelEvalMode], [])
         = (trace st @ [ModelEvalMode] @ ies, predictions)"
  using inference_trace [of env "trace st @ [ModelEvalMode]" "eval_target args" True]
  by (simp add: eval_inference_def save_predictions_default_def)

lemma evaluation_trace:
  "trace (snd (evaluation env args epoch st)) =
     snd (eval_inference env args st) @ [eval_report env args epoch st]
       @ eval_tail env args epoch st"
  by (simp add: evaluation_cases eval_tail_def Let_def split: option.splits)

lemma evaluation_fields:
  "global_step (snd (evaluation env args epoch st)) = global_step st"
  "train_losses (snd (evaluation env args epoch st)) = []"
  "best_accuracy (snd (evaluation env args epoch st)) =
     (if fl_less (best_accuracy st) (fst (eval_inference env args st))
      then fst (eval_inference env args st) else best_accuracy st)"
  by (simp_all add: evaluation_cases Let_def split: option.splits)

lemma train_batch_cases:
  "train_batch env args epoch st batch =
     (case update_step env args st batch of
        (Next, st') \<Rightarrow>
          if eval_period args = 0 then (Raised ZeroDivisionError, st')
          else if (global_step st + 1) mod eval_period args = 0
               then evaluation env args epoch st' else (Next, st')
      | (Broke, st') \<Rightarrow> (Broke, st')
      | (Raised e, st') \<Rightarrow> (Raised e, st'))"
proof -
  have gs: "global_step (snd (update_step env args st batch)) = global_step st + 1"
    by (simp add: update_step_def Let_def emit_def py_mod_def)
  show ?thesis
  proof (cases "update_step env args st batch")
    case (Pair s st')
    with gs have "global_step st' = global_step st + 1" by simp
    with Pair show ?thesis by (cases s) (simp_all add: train_batch_def py_mod_def)
  qed
qed

lemma train_batch_next:
  assumes "fst (update_step env args st batch) = Next"
  shows "train_batch env args epoch st batch =
     (if eval_period args = 0
      then (Raised ZeroDivisionError, snd (update_step env args st batch))
      else if (global_step st + 1) mod eval_period args = 0
           then evaluation env args epoch (snd (update_step env args st batch))
           else (Next, snd (update_step env args st batch)))"
proof (cases "update_step env args st batch")
  case (Pair s st')
  with assms show ?thesis by (simp add: train_batch_cases)
qed

lemma train_batch_stop:
  assumes "fst (update_step env args st batch) \<noteq> Next"
  shows "train_batch env args epoch st batch = update_step env args st batch"
proof (cases "update_step env args st batch")
  case (Pair s st')
  with assms show ?thesis by (cases s) (simp_all add: train_batch_cases)
qed

lemma new_calls_append: "trace st' = trace st @ es \<Longrightarrow> new_calls st st' = es"
  by (simp add: new_calls_def)

lemma inference_call_not_update: "list_all inference_call es \<Longrightarrow> \<not> list_ex update_call es"
proof (induction es)
  case Nil
  show ?case by simp
next
  case (Cons e es)
  then show ?case by (cases e) simp_all
qed

lemma eval_tail_not_update: "\<not> list_ex update_call (eval_tail env args epoch st)"
  by (simp add: eval_tail_def split: option.splits)

lemma evaluation_new_calls:
  "\<exists>ies predictions.
     trace (snd (evaluation env args epoch st)) =
       trace st @ [ModelEvalMode] @ ies @
         [SavePredictions predictions, Evaluate predictions, eval_report env args epoch st]
         @ eval_tail env args epoch st
   \<and> list_all inference_call ies
   \<and> (\<forall>p. SavePredictions p \<notin> set ies) \<and> (\<forall>p. Evaluate p \<notin> set ies)
   \<and> inference_loop env (eval_target args) (dev_dataloader env (trace st @ [ModelEvalMode]))
           (trace st @ [ModelEvalMode], [])
         = (trace st @ [ModelEvalMode] @ ies, predictions)"
proof -
  from eval_inference_trace [of env args st] obtain ies predictions h' where
    E: "eval_inference env args st =
         (np_mean env (evaluate env h' predictions),
          trace st @ [ModelEvalMode] @ ies @ [SavePredictions predictions, Evaluate predictions])"
       "list_all inference_call ies"
       "\<forall>p. SavePredictions p \<notin> set ies" "\<forall>p. Evaluate p \<notin> set ies"
       "inference_loop env (eval_target args) (dev_dataloader env (trace st @ [ModelEvalMode]))
           (trace st @ [ModelEvalMode], [])
         = (trace st @ [ModelEvalMode] @ ies, predictions)"
    by blast
  have "trace (snd (evaluation env args epoch st)) =
       trace st @ [ModelEvalMode] @ ies @
         [SavePredictions predictions, Evaluate predictions, eval_report env args epoch st]
         @ eval_tail env args epoch st"
    by (simp add: evaluation_trace E(1))
  with E show ?thesis by blast
qed

lemma update_step_extends:
  "\<exists>es. trace (snd (update_step env args st batch)) = trace st @ es \<and> list_all step_call es"
  by (simp add: update_step_def emit_def Let_def py_mod_def)

lemma step_call_not_evaluate: "list_all step_call es \<Longrightarrow> \<not> list_ex is_evaluate es"
proof (induction es)
  case Nil
  show ?case by simp
next
  case (Cons e es)
  then show ?case by (cases e) simp_all
qed

lemma train_batch_new_calls:
  "\<exists>us. list_all step_call us
     \<and> trace (snd (update_step env args st batch)) = trace st @ us
     \<and> (if evaluates env args st batch
        then train_batch env args epoch st batch
               = evaluation env args epoch (snd (update_step env args st batch))
           \<and> (\<exists>ies predictions. list_all inference_call ies
                \<and> trace (snd (train_batch env args epoch st batch)) =
                    trace st @ us @ [ModelEvalMode] @ ies @
                      [SavePredictions predictions, Evaluate predictions,
                       eval_report env args epoch (snd (update_step env args st batch))]
                      @ eval_tail env args epoch (snd (update_step env args st batch)))
        else snd (train_batch env args epoch st batch) = snd (update_step env args st batch))"
proof -
  let ?st6 = "snd (update_step env args st batch)"
  from update_step_extends [of env args st batch] obtain us where
    us: "trace ?st6 = trace st @ us" "list_all step_call us"
    by blast
  show ?thesis
  proof (cases "evaluates env args st batch")
    case True
    then have tb: "train_batch env args epoch st batch = evaluation env args epoch ?st6"
      by (simp add: evaluates_def train_batch_next)
    from evaluation_new_calls [of env args epoch ?st6] obtain ies predictions where
      E: "trace (snd (evaluation env args epoch ?st6)) =
            trace ?st6 @ [ModelEvalMode] @ ies @
              [SavePredictions predictions, Evaluate predictions, eval_report env args epoch ?st6]
              @ eval_tail env args epoch ?st6"
         "list_all inference_call ies"
      by blast
    have "trace (snd (train_batch env args epoch st batch)) =
            trace st @ us @ [ModelEvalMode] @ ies @
              [SavePredictions predictions, Evaluate predictions, eval_report env args epoch ?st6]
              @ eval_tail env args epoch ?st6"
      unfolding tb E(1) us(1) by simp
    with True tb E(2) us show ?thesis by auto
  next
    case False
    have "snd (train_batch env args epoch st batch) = ?st6"
    proof (cases "fst (update_step env args st batch) = Next")
      case True
      with False show ?thesis by (auto simp: evaluates_def train_batch_next)
    next
      case False
      then show ?thesis by (simp add: train_batch_stop)
    qed
    with False us show ?thesis by auto
  qed
qed

lemma step_call_kinds:
  "step_call e \<Longrightarrow> \<not> is_torch_save e \<and> \<not> is_report e \<and> \<not> is_load e \<and> \<not> is_evaluate e
     \<and> \<not> is_save_predictions e \<and> \<not> is_generate e \<and> e \<noteq> Log StartingTraining"
  by (induction e rule: step_call.induct) simp_all

lemma inference_call_kinds:
  "inference_call e \<Longrightarrow> \<not> is_torch_save e \<and> \<not> is_report e \<and> \<not> is_load e \<and> \<not> update_call e
     \<and> e \<noteq> Log StartingTraining"
  by (induction e rule: inference_call.induct) simp_all

lemma filter_none: "list_all P es \<Longrightarrow> (\<And>e. P e \<Longrightarrow> \<not> Q e) \<Longrightarrow> filter Q es = []"
  by (induction es) auto

lemma update_step_fields:
  "global_step (snd (update_step env args st batch)) = global_step st + 1"
  "best_accuracy (snd (update_step env args st batch)) = best_accuracy st"
  "wait_step_var (snd (update_step env args st batch)) = wait_step_var st"
  by (simp_all add: update_step_def Let_def emit_def py_mod_def)

subsection \<open>The order on scores, and properties kept by the loops\<close>

lemma fl_less_not_nan: "fl_less a b \<Longrightarrow> a \<noteq> NaN \<and> b \<noteq> NaN"
  by (induction a b rule: fl_less.induct) simp_all

lemma fl_less_trans: "fl_less a b \<Longrightarrow> fl_less b c \<Longrightarrow> fl_less a c"
  by (cases a; cases b; cases c) simp_all

lemma fl_le_refl: "a \<noteq> NaN \<Longrightarrow> fl_le a a"
  by (simp add: fl_le_def)

lemma fl_le_trans: "fl_le a b \<Longrightarrow> fl_le b c \<Longrightarrow> fl_le a c"
  unfolding fl_le_def using fl_less_trans by blast

lemma fl_le_not_nan: "fl_le a b \<Longrightarrow> a \<noteq> NaN \<and> b \<noteq> NaN"
  unfolding fl_le_def using fl_less_not_nan by blast

lemma batch_loop_rel:
  assumes refl: "\<And>st. R st st"
      and trans: "\<And>a b c. R a b \<Longrightarrow> R b c \<Longrightarrow> R a c"
      and step: "\<And>st batch. R st (snd (train_batch env args epoch st batch))"
  shows "R st (snd (batch_loop env args epoch bs st))"
proof (induction bs arbitrary: st)
  case Nil
  show ?case by (simp add: refl)
next
  case (Cons b bs)
  show ?case
  proof (cases "train_batch env args epoch st b")
    case (Pair s st')
    with step [of st b] have one: "R st st'" by simp
    show ?thesis
    proof (cases s)
      case Next
      with Pair have "batch_loop env args epoch (b # bs) st = batch_loop env args epoch bs st'"
        by simp
      with trans [OF one Cons.IH [of st']] show ?thesis by simp
    next
      case Broke
      with Pair one show ?thesis by simp
    next
      case (Raised e)
      with Pair one show ?thesis by simp
    qed
  qed
qed

lemma epoch_loop_rel:
  assumes refl: "\<And>st. R st st"
      and trans: "\<And>a b c. R a b \<Longrightarrow> R b c \<Longrightarrow> R a c"
      and step: "\<And>epoch st batch. R st (snd (train_batch env args epoch st batch))"
  shows "R st (snd (epoch_loop env args es st))"
proof (induction es arbitrary: st)
  case Nil
  show ?case by (simp add: refl)
next
  case (Cons epoch es)
  let ?r = "batch_loop env args epoch (train_dataloader env (trace st)) st"
  have inner: "R st (snd ?r)"
    by (rule batch_loop_rel [OF refl trans step])
  show ?case
  proof (cases ?r)
    case (Pair s st')
    with inner have one: "R st st'" by simp
    show ?thesis
    proof (cases "(\<exists>e. s = Raised e) \<or> stop_training st'")
      case True
      with Pair have "snd (epoch_loop env args (epoch # es) st) = st'"
        by (cases s) auto
      with one show ?thesis by simp
    next
      case False
      with Pair have "epoch_loop env args (epoch # es) st = epoch_loop env args es st'"
        by (cases s) auto
      with trans [OF one Cons.IH [of st']] show ?thesis by simp
    qed
  qed
qed

subsection \<open>Checkpoints and the best score\<close>

lemma eval_tail_torch_save:
  "filter is_torch_save (eval_tail env args epoch st) =
     (if fl_less (best_accuracy st) (fst (eval_inference env args st))
      then [TorchSave
              (map (\<lambda>(k, v). (k, cpu v))
                 (state_dict env
                    (snd (eval_inference env args st) @ [eval_report env args epoch st])))
              (path_join (output_dir args) ''best-model.pt'')]
      else [])"
  by (simp add: eval_tail_def split: option.splits)

lemma evaluation_torch_save:
  "filter is_torch_save (new_calls st (snd (evaluation env args epoch st))) =
     filter is_torch_save (eval_tail env args epoch st)"
proof -
  from evaluation_new_calls [of env args epoch st] obtain ies predictions where
    E: "trace (snd (evaluation env args epoch st)) =
          trace st @ ([ModelEvalMode] @ ies @
            [SavePredictions predictions, Evaluate predictions, eval_report env args epoch st]
            @ eval_tail env args epoch st)"
       "list_all inference_call ies"
    by auto
  have "filter is_torch_save ies = []"
    by (rule filter_none [OF E(2)]) (simp add: inference_call_kinds)
  then show ?thesis
    unfolding new_calls_append [OF E(1)] by (simp add: eval_report_def)
qed

lemma train_batch_torch_save:
  "filter is_torch_save (new_calls st (snd (train_batch env args epoch st batch))) =
     (if evaluates env args st batch
      then filter is_torch_save (eval_tail env args epoch (snd (update_step env args st batch)))
      else [])"
proof -
  let ?st6 = "snd (update_step env args st batch)"
  from train_batch_new_calls [of env args st batch epoch] obtain us where
    us: "list_all step_call us" "trace ?st6 = trace st @ us"
    and rest: "if evaluates env args st batch
        then train_batch env args epoch st batch = evaluation env args epoch ?st6
           \<and> (\<exists>ies predictions. list_all inference_call ies
                \<and> trace (snd (train_batch env args epoch st batch)) =
                    trace st @ us @ [ModelEvalMode] @ ies @
                      [SavePredictions predictions, Evaluate predictions,
                       eval_report env args epoch ?st6]
                      @ eval_tail env args epoch ?st6)
        else snd (train_batch env args epoch st batch) = ?st6"
    by blast
  have nous: "filter is_torch_save us = []"
    by (rule filter_none [OF us(1)]) (simp add: step_call_kinds)
  show ?thesis
  proof (cases "evaluates env args st batch")
    case True
    with rest obtain ies predictions where
      E: "list_all inference_call ies"
         "trace (snd (train_batch env args epoch st batch)) =
                    trace st @ (us @ [ModelEvalMode] @ ies @
                      [SavePredictions predictions, Evaluate predictions,
                       eval_report env args epoch ?st6]
                      @ eval_tail env args epoch ?st6)"
      by auto
    have "filter is_torch_save ies = []"
      by (rule filter_none [OF E(1)]) (simp add: inference_call_kinds)
    with nous True show ?thesis
      unfolding new_calls_append [OF E(2)] by (simp add: eval_report_def)
  next
    case False
    with rest us(2) have "trace (snd (train_batch env args epoch st batch)) = trace st @ us"
      by simp
    from new_calls_append [OF this] nous False show ?thesis by simp
  qed
qed

lemma train_batch_best:
  "best_accuracy (snd (train_batch env args epoch st batch)) =
     (if evaluates env args st batch
         \<and> fl_less (best_accuracy st)
             (fst (eval_inference env args (snd (update_step env args st batch))))
      then fst (eval_inference env args (snd (update_step env args st batch)))
      else best_accuracy st)"
proof -
  from train_batch_new_calls [of env args st batch epoch] have
    rest: "if evaluates env args st batch
        then train_batch env args epoch st batch
               = evaluation env args epoch (snd (update_step env args st batch))
        else snd (train_batch env args epoch st batch) = snd (update_step env args st batch)"
    by auto
  show ?thesis
  proof (cases "evaluates env args st batch")
    case True
    with rest show ?thesis by (simp add: evaluation_fields update_step_fields)
  next
    case False
    with rest show ?thesis by (simp add: update_step_fields)
  qed
qed

lemma train_batch_best_mono:
  "best_accuracy st \<noteq> NaN \<longrightarrow>
     fl_le (best_accuracy st) (best_accuracy (snd (train_batch env args epoch st batch)))"
  by (simp add: train_batch_best fl_le_def)

lemma best_mono_trans:
  "(best_accuracy a \<noteq> NaN \<longrightarrow> fl_le (best_accuracy a) (best_accuracy b)) \<Longrightarrow>
   (best_accuracy b \<noteq> NaN \<longrightarrow> fl_le (best_accuracy b) (best_accuracy c)) \<Longrightarrow>
   best_accuracy a \<noteq> NaN \<longrightarrow> fl_le (best_accuracy a) (best_accuracy c)"
  using fl_le_trans fl_le_not_nan by blast

lemma batch_loop_best_mono:
  "best_accuracy st \<noteq> NaN \<longrightarrow>
     fl_le (best_accuracy st) (best_accuracy (snd (batch_loop env args epoch bs st)))"
  by (rule batch_loop_rel
        [where R = "\<lambda>a b. best_accuracy a \<noteq> NaN \<longrightarrow> fl_le (best_accuracy a) (best_accuracy b)"])
     (simp add: fl_le_def, erule (1) best_mono_trans, rule train_batch_best_mono)

lemma epoch_loop_best_mono:
  "best_accuracy st \<noteq> NaN \<longrightarrow>
     fl_le (best_accuracy st) (best_accuracy (snd (epoch_loop env args es st)))"
  by (rule epoch_loop_rel
        [where R = "\<lambda>a b. best_accuracy a \<noteq> NaN \<longrightarrow> fl_le (best_accuracy a) (best_accuracy b)"])
     (simp add: fl_le_def, erule (1) best_mono_trans, rule train_batch_best_mono)

lemma cpu_state_dict:
  "map fst (map (\<lambda>(k, v). (k, cpu v)) d) = map fst d
   \<and> (\<forall>(k, v) \<in> set (map (\<lambda>(k, v). (k, cpu v)) d). tdevice v = Cpu)
   \<and> map (tdata \<circ> snd) (map (\<lambda>(k, v). (k, cpu v)) d) = map (tdata \<circ> snd) d"
  by (induction d) (auto simp: cpu_def)

subsection \<open>How the loops end\<close>

lemma update_step_stop_training:
  "fst (update_step env args st batch) = Next \<Longrightarrow>
     stop_training (snd (update_step env args st batch)) = stop_training st"
  by (simp add: update_step_def Let_def emit_def py_mod_def split: if_splits)

lemma train_batch_evaluates:
  "evaluates env args st batch \<Longrightarrow>
     train_batch env args epoch st batch
       = evaluation env args epoch (snd (update_step env args st batch))"
  by (simp add: evaluates_def train_batch_next)

lemma train_batch_not_evaluates:
  "\<not> evaluates env args st batch \<Longrightarrow>
     snd (train_batch env args epoch st batch) = snd (update_step env args st batch)"
  using train_batch_new_calls [of env args st batch epoch] by auto

lemma epoch_loop_broke:
  assumes "batch_loop env args epoch (train_dataloader env (trace st0)) st0 = (Broke, st')"
      and "stop_training st'"
  shows "epoch_loop env args (epoch # later) st0 = (Next, st')"
  using assms by simp

lemma epoch_loop_raised:
  assumes "batch_loop env args epoch (train_dataloader env (trace st0)) st0 = (Raised e, st')"
  shows "epoch_loop env args (epoch # later) st0 = (Raised e, st')"
  using assms by simp

lemma batch_loop_stops:
  assumes "batch_loop env args epoch pre st0 = (Next, st1)"
      and "fst (train_batch env args epoch st1 batch) \<noteq> Next"
  shows "batch_loop env args epoch (pre @ batch # rest) st0 = train_batch env args epoch st1 batch"
proof (cases "train_batch env args epoch st1 batch")
  case (Pair s st')
  with assms show ?thesis by (cases s) (simp_all add: batch_loop_append)
qed

subsection \<open>The loss buffer and the states reached by \<open>train\<close>\<close>

lemma recorded_append: "recorded acc (xs @ ys) = recorded (recorded acc xs) ys"
  by (induction acc xs rule: recorded.induct) simp_all

lemma recorded_inference: "list_all inference_call es \<Longrightarrow> recorded acc es = acc"
  by (induction acc es rule: recorded.induct) simp_all

lemma recorded_eval_tail: "recorded acc (eval_tail env args epoch st) = acc"
  by (simp add: eval_tail_def split: option.splits)

lemma recorded_report: "recorded acc (eval_report env args epoch st # es) = recorded [] es"
  by (simp add: eval_report_def)

lemma update_step_recorded:
  "trace (snd (update_step env args st batch)) = trace st @ us \<Longrightarrow>
     train_losses (snd (update_step env args st batch)) = recorded (train_losses st) us"
  by (auto simp add: update_step_def Let_def emit_def py_mod_def split: if_splits)

lemma report_inference: "list_all inference_call es \<Longrightarrow> \<not> list_ex is_report es"
  using inference_call_kinds by (induction es) auto

lemma report_step: "list_all step_call es \<Longrightarrow> \<not> list_ex is_report es"
  using step_call_kinds by (induction es) auto

lemma train_batch_effect:
  "\<exists>new. trace (snd (train_batch env args epoch st batch)) = trace st @ new
     \<and> train_losses (snd (train_batch env args epoch st batch)) = recorded (train_losses st) new
     \<and> (\<not> list_ex is_report new \<longrightarrow>
          wait_step_var (snd (train_batch env args epoch st batch)) = wait_step_var st
        \<and> best_accuracy (snd (train_batch env args epoch st batch)) = best_accuracy st)"
proof -
  let ?st6 = "snd (update_step env args st batch)"
  from train_batch_new_calls [of env args st batch epoch] obtain us where
    us: "list_all step_call us" "trace ?st6 = trace st @ us"
    and rest: "if evaluates env args st batch
        then train_batch env args epoch st batch = evaluation env args epoch ?st6
           \<and> (\<exists>ies predictions. list_all inference_call ies
                \<and> trace (snd (train_batch env args epoch st batch)) =
                    trace st @ us @ [ModelEvalMode] @ ies @
                      [SavePredictions predictions, Evaluate predictions,
                       eval_report env args epoch ?st6]
                      @ eval_tail env args epoch ?st6)
        else snd (train_batch env args epoch st batch) = ?st6"
    by blast
  have l6: "train_losses ?st6 = recorded (train_losses st) us"
    using us(2) by (rule update_step_recorded)
  show ?thesis
  proof (cases "evaluates env args st batch")
    case True
    with rest obtain ies predictions where
      E: "train_batch env args epoch st batch = evaluation env args epoch ?st6"
         "list_all inference_call ies"
         "trace (snd (train_batch env args epoch st batch)) =
                    trace st @ (us @ [ModelEvalMode] @ ies @
                      [SavePredictions predictions, Evaluate predictions,
                       eval_report env args epoch ?st6]
                      @ eval_tail env args epoch ?st6)"
      by auto
    let ?new = "us @ [ModelEvalMode] @ ies @
                      [SavePredictions predictions, Evaluate predictions,
                       eval_report env args epoch ?st6]
                      @ eval_tail env args epoch ?st6"
    have "recorded (train_losses st) ?new = []"
      by (simp add: recorded_append recorded_inference [OF E(2)] recorded_report
            recorded_eval_tail)
    then have "train_losses (snd (train_batch env args epoch st batch))
                 = recorded (train_losses st) ?new"
      by (simp add: E(1) evaluation_fields)
    moreover have "list_ex is_report ?new" by (simp add: eval_report_def)
    ultimately show ?thesis using E(3) by blast
  next
    case False
    with rest have eq: "snd (train_batch env args epoch st batch) = ?st6" by simp
    then have "trace (snd (train_batch env args epoch st batch)) = trace st @ us"
      "train_losses (snd (train_batch env args epoch st batch)) = recorded (train_losses st) us"
      "wait_step_var (snd (train_batch env args epoch st batch)) = wait_step_var st"
      "best_accuracy (snd (train_batch env args epoch st batch)) = best_accuracy st"
      using us(2) l6 by (simp_all add: update_step_fields)
    then show ?thesis by blast
  qed
qed

lemma reachable_invariant:
  assumes "reachable env args h st"
  shows "\<exists>es. trace st = h @ [ModelTrainMode, Log StartingTraining] @ es
           \<and> train_losses st = recorded [] es
           \<and> (\<not> list_ex is_report es \<longrightarrow>
                wait_step_var st = None \<and> best_accuracy st = Fin (- 1))"
  using assms
proof (induction rule: reachable.induct)
  case start
  show ?case by (simp add: train_init_def)
next
  case (step st epoch batch s st')
  then obtain es where
    es: "trace st = h @ [ModelTrainMode, Log StartingTraining] @ es"
        "train_losses st = recorded [] es"
        "\<not> list_ex is_report es \<longrightarrow> wait_step_var st = None \<and> best_accuracy st = Fin (- 1)"
    by blast
  from train_batch_effect [of env args epoch st batch] step.hyps(2) obtain new where
    new: "trace st' = trace st @ new"
         "train_losses st' = recorded (train_losses st) new"
         "\<not> list_ex is_report new \<longrightarrow>
            wait_step_var st' = wait_step_var st \<and> best_accuracy st' = best_accuracy st"
    by auto
  have "trace st' = h @ [ModelTrainMode, Log StartingTraining] @ (es @ new)"
    using es(1) new(1) by simp
  moreover have "train_losses st' = recorded [] (es @ new)"
    using es(2) new(2) by (simp add: recorded_append)
  moreover have "\<not> list_ex is_report (es @ new) \<longrightarrow>
                wait_step_var st' = None \<and> best_accuracy st' = Fin (- 1)"
    using es(3) new(3) by simp
  ultimately show ?case by blast
qed

lemma reachable_losses:
  assumes "reachable env args h st"
  shows "train_losses st = recorded_losses (trace st)"
proof -
  from reachable_invariant [OF assms] obtain es where
    es: "trace st = h @ [ModelTrainMode, Log StartingTraining] @ es"
        "train_losses st = recorded [] es"
    by blast
  have "recorded_losses (trace st) = recorded [] es"
    unfolding recorded_losses_def es(1) by (simp add: recorded_append)
  with es(2) show ?thesis by simp
qed

lemma reachable_first:
  assumes "reachable env args h st" and "\<not> list_ex is_report (drop (length h) (trace st))"
  shows "wait_step_var st = None \<and> best_accuracy st = Fin (- 1)"
proof -
  from reachable_invariant [OF assms(1)] obtain es where
    es: "trace st = h @ [ModelTrainMode, Log StartingTraining] @ es"
        "\<not> list_ex is_report es \<longrightarrow> wait_step_var st = None \<and> best_accuracy st = Fin (- 1)"
    by blast
  from assms(2) have "\<not> list_ex is_report es" unfolding es(1) by simp
  with es(2) show ?thesis by blast
qed

lemma train_batch_wait:
  "wait_step_var (snd (train_batch env args epoch st batch)) =
     (if evaluates env args st batch
      then if fl_less (best_accuracy st)
                (fst (eval_inference env args (snd (update_step env args st batch))))
           then Some 0
           else map_option (\<lambda>w. w + 1) (wait_step_var st)
      else wait_step_var st)"
proof (cases "evaluates env args st batch")
  case True
  then show ?thesis
    by (simp add: train_batch_evaluates evaluation_cases update_step_fields Let_def
          split: option.splits)
next
  case False
  then show ?thesis by (simp add: train_batch_not_evaluates update_step_fields)
qed

lemma train_batch_global_step:
  "global_step (snd (train_batch env args epoch st batch)) = global_step st + 1"
proof (cases "evaluates env args st batch")
  case True
  then show ?thesis
    by (simp add: train_batch_evaluates evaluation_fields update_step_fields)
next
  case False
  then show ?thesis by (simp add: train_batch_not_evaluates update_step_fields)
qed

text \<open>The step counter is never negative in a state that \<open>train\<close> reaches.\<close>

lemma reachable_global_step:
  assumes "reachable env args h st"
  shows "0 \<le> global_step st"
  using assms
proof (induction rule: reachable.induct)
  case start
  show ?case by (simp add: train_init_def)
next
  case (step st epoch batch s st')
  from train_batch_global_step [of env args epoch st batch] step.hyps(2)
  have "global_step st' = global_step st + 1" by simp
  with step.IH show ?case by simp
qed

lemma reachable_after_one: "reachable env args_ex [] (st_after_one env)"
  unfolding st_after_one_def
  by (rule reachable.step [OF reachable.start]) (rule prod.collapse [symmetric])

subsection \<open>No call loads a state dict\<close>

lemma no_load_inference: "list_all inference_call es \<Longrightarrow> \<not> list_ex is_load es"
  using inference_call_kinds by (induction es) auto

lemma no_load_step: "list_all step_call es \<Longrightarrow> \<not> list_ex is_load es"
  using step_call_kinds by (induction es) auto

lemma no_load_eval_tail: "\<not> list_ex is_load (eval_tail env args epoch st)"
  by (simp add: eval_tail_def split: option.splits)

lemma inference_no_load:
  "\<exists>es. snd (inference env h m save) = h @ es \<and> \<not> list_ex is_load es"
proof -
  from inference_trace [of env h m save] obtain es predictions where
    I: "snd (inference env h m save) =
          h @ (es @ (if save then [SavePredictions predictions] else []) @ [Evaluate predictions])"
       "list_all inference_call es"
    by auto
  have "\<not> list_ex is_load
          (es @ (if save then [SavePredictions predictions] else []) @ [Evaluate predictions])"
    using no_load_inference [OF I(2)] by simp
  with I(1) show ?thesis by blast
qed

lemma train_batch_no_load:
  "\<exists>new. trace (snd (train_batch env args epoch st batch)) = trace st @ new
        \<and> \<not> list_ex is_load new"
proof -
  let ?st6 = "snd (update_step env args st batch)"
  from train_batch_new_calls [of env args st batch epoch] obtain us where
    us: "list_all step_call us" "trace ?st6 = trace st @ us"
    and rest: "if evaluates env args st batch
        then train_batch env args epoch st batch = evaluation env args epoch ?st6
           \<and> (\<exists>ies predictions. list_all inference_call ies
                \<and> trace (snd (train_batch env args epoch st batch)) =
                    trace st @ us @ [ModelEvalMode] @ ies @
                      [SavePredictions predictions, Evaluate predictions,
                       eval_report env args epoch ?st6]
                      @ eval_tail env args epoch ?st6)
        else snd (train_batch env args epoch st batch) = ?st6"
    by blast
  show ?thesis
  proof (cases "evaluates env args st batch")
    case True
    with rest obtain ies predictions where
      E: "list_all inference_call ies"
         "trace (snd (train_batch env args epoch st batch)) =
                    trace st @ (us @ [ModelEvalMode] @ ies @
                      [SavePredictions predictions, Evaluate predictions,
                       eval_report env args epoch ?st6]
                      @ eval_tail env args epoch ?st6)"
      by auto
    have "\<not> list_ex is_load (us @ [ModelEvalMode] @ ies @
                      [SavePredictions predictions, Evaluate predictions,
                       eval_report env args epoch ?st6]
                      @ eval_tail env args epoch ?st6)"
      using no_load_step [OF us(1)] no_load_inference [OF E(1)]
        no_load_eval_tail [of env args epoch ?st6]
      by (simp add: eval_report_def)
    with E(2) show ?thesis by blast
  next
    case False
    with rest us(2) have "trace (snd (train_batch env args epoch st batch)) = trace st @ us"
      by simp
    with no_load_step [OF us(1)] show ?thesis by blast
  qed
qed

lemma no_load_trans:
  "\<exists>es. trace b = trace a @ es \<and> \<not> list_ex is_load es \<Longrightarrow>
   \<exists>es. trace c = trace b @ es \<and> \<not> list_ex is_load es \<Longrightarrow>
   \<exists>es. trace c = trace a @ es \<and> \<not> list_ex is_load es"
proof -
  assume "\<exists>es. trace b = trace a @ es \<and> \<not> list_ex is_load es"
     and "\<exists>es. trace c = trace b @ es \<and> \<not> list_ex is_load es"
  then obtain es es' where
    "trace b = trace a @ es" "\<not> list_ex is_load es"
    "trace c = trace b @ es'" "\<not> list_ex is_load es'"
    by blast
  then have "trace c = trace a @ (es @ es')" "\<not> list_ex is_load (es @ es')" by simp_all
  then show ?thesis by blast
qed

lemma train_no_load:
  "\<exists>es. trace (snd (train env args h)) = h @ es \<and> \<not> list_ex is_load es"
proof -
  have "\<exists>es. trace (snd (epoch_loop env args (py_range (py_int (num_train_epochs args)))
                             (train_init h)))
              = trace (train_init h) @ es \<and> \<not> list_ex is_load es"
    by (rule epoch_loop_rel
          [where R = "\<lambda>a b. \<exists>es. trace b = trace a @ es \<and> \<not> list_ex is_load es"])
       (simp, erule (1) no_load_trans, rule train_batch_no_load)
  then obtain es where
    "trace (snd (train env args h)) = h @ ([ModelTrainMode, Log StartingTraining] @ es)"
    "\<not> list_ex is_load ([ModelTrainMode, Log StartingTraining] @ es)"
    by (auto simp: train_def train_init_def)
  then show ?thesis by blast
qed

section \<open>A NaN loss\<close>

text \<open>
  C3.  If the forward pass of a training batch returns a NaN loss, \<open>train\<close> logs it
  and returns normally.  Whatever batches \<open>pre\<close> were trained on before it in the epoch,
  and whatever batches \<open>rest\<close> and epochs \<open>later\<close> were still to come: the batch body
  breaks, the batch loop breaks, and the epoch loop ends without an exception in the state
  the batch was entered in, changed only by the step count, the stop flag and three calls
  (the move to the device, the forward pass, the log line).  So there is no backward pass,
  no optimizer or scheduler step, and the loss buffer is the one before the batch.
\<close>

theorem nan_loss_halts_train:
  assumes before: "batch_loop env args epoch pre st = (Next, st1)"
      and nan: "isnan (forward env (trace st1 @ [BatchTo (torch_device env) batch]) batch)"
      and loader: "train_dataloader env (trace st) = pre @ batch # rest"
  shows "train_batch env args epoch st1 batch =
           (Broke,
            st1\<lparr>trace := trace st1 @
                   [BatchTo (torch_device env) batch,
                    Forward (fst batch) (fst (snd batch)) (fst (snd (snd batch)))
                      (snd (snd (snd batch))) True,
                    Log (StopNaN NaN)],
                global_step := global_step st1 + 1,
                stop_training := True\<rparr>)
       \<and> epoch_loop env args (epoch # later) st =
           (Next,
            st1\<lparr>trace := trace st1 @
                   [BatchTo (torch_device env) batch,
                    Forward (fst batch) (fst (snd batch)) (fst (snd (snd batch)))
                      (snd (snd (snd batch))) True,
                    Log (StopNaN NaN)],
                global_step := global_step st1 + 1,
                stop_training := True\<rparr>)"
proof -
  have step: "train_batch env args epoch st1 batch =
           (Broke,
            st1\<lparr>trace := trace st1 @
                   [BatchTo (torch_device env) batch,
                    Forward (fst batch) (fst (snd batch)) (fst (snd (snd batch)))
                      (snd (snd (snd batch))) True,
                    Log (StopNaN NaN)],
                global_step := global_step st1 + 1,
                stop_training := True\<rparr>)"
    by (simp add: train_batch_def update_step_nan [OF nan])
  have inner: "batch_loop env args epoch (pre @ batch # rest) st =
           (Broke,
            st1\<lparr>trace := trace st1 @
                   [BatchTo (torch_device env) batch,
                    Forward (fst batch) (fst (snd batch)) (fst (snd (snd batch)))
                      (snd (snd (snd batch))) True,
                    Log (StopNaN NaN)],
                global_step := global_step st1 + 1,
                stop_training := True\<rparr>)"
    by (simp add: batch_loop_append before step)
  show ?thesis using step by (simp add: loader inner)
qed

theorem nan_loss_halts_train_witness:
  "train env_nan args_ex [] =
     (Next,
      \<lparr>trace = [ModelTrainMode, Log StartingTraining, BatchTo Cpu (1, 2, 3, 4),
                Forward 1 2 3 4 True, Log (StopNaN NaN)],
       global_step = 1, train_losses = [], best_accuracy = Fin (- 1),
       stop_training = True, wait_step_var = None\<rparr>)"
  using nan_loss_halts_train [of env_nan args_ex 0 "[]" "train_init []" "train_init []"
          "(1, 2, 3, 4)" "[(5, 6, 7, 8)]" "[1, 2]"]
  by (simp add: env_nan_def env_ex_def args_ex_def train_def train_init_def py_range_def
        py_int_def isnan_def torch_device_def upt_rec)

section \<open>The optimizer's parameter groups\<close>

lemma str_in_sublist: "str_in nd n = sublist nd n"
  by (induction n) (simp_all add: sublist_Cons_right)

lemma mset_filter_split:
  "mset (map f (filter (\<lambda>x. \<not> P x) xs)) + mset (map f (filter P xs)) = mset (map f xs)"
  by (induction xs) simp_all


text \<open>
  C9.  \<open>run\<close> builds two parameter groups, and they partition the model's named
  parameters: together they hold each parameter once (as multisets), the first group has
  \<open>args.weight_decay\<close> and the second 0.0, and a parameter goes to the second group when
  its name contains \<open>bias\<close> or \<open>LayerNorm.weight\<close> and to the first one otherwise.
  When no parameter is listed under two names, it is in that group only.
\<close>

theorem parameter_groups_partition:
  fixes env :: "'t env"
  shows "\<exists>decayed exempt.
       optimizer_grouped_parameters env args h = [decayed, exempt]
     \<and> pg_weight_decay decayed = weight_decay args
     \<and> pg_weight_decay exempt = 0
     \<and> mset (pg_params decayed) + mset (pg_params exempt)
         = mset (map snd (named_parameters env h))
     \<and> (\<forall>(n, p) \<in> set (named_parameters env h).
          if sublist ''bias'' n \<or> sublist ''LayerNorm.weight'' n
          then p \<in> set (pg_params exempt) else p \<in> set (pg_params decayed))
     \<and> (distinct (map snd (named_parameters env h)) \<longrightarrow>
          (\<forall>(n, p) \<in> set (named_parameters env h).
             (p \<in> set (pg_params exempt))
               = (sublist ''bias'' n \<or> sublist ''LayerNorm.weight'' n)
           \<and> (p \<in> set (pg_params decayed))
               = (\<not> (sublist ''bias'' n \<or> sublist ''LayerNorm.weight'' n))))"
proof -
  let ?nps = "named_parameters env h"
  let ?hit = "\<lambda>n. sublist ''bias'' n \<or> sublist ''LayerNorm.weight'' n"
  define decayed :: "'t param_group" where
    "decayed = \<lparr>pg_params = map snd (filter (\<lambda>(n, p). \<not> list_ex (\<lambda>nd. str_in nd n) no_decay) ?nps),
                pg_weight_decay = weight_decay args\<rparr>"
  define exempt :: "'t param_group" where
    "exempt = \<lparr>pg_params = map snd (filter (\<lambda>(n, p). list_ex (\<lambda>nd. str_in nd n) no_decay) ?nps),
               pg_weight_decay = 0\<rparr>"
  have ex: "list_ex (\<lambda>nd. str_in nd n) no_decay = ?hit n" for n
    by (simp add: no_decay_def str_in_sublist)
  have pd: "pg_params decayed = map snd (filter (\<lambda>x. \<not> ?hit (fst x)) ?nps)"
    by (simp add: decayed_def ex case_prod_unfold)
  have pe: "pg_params exempt = map snd (filter (\<lambda>x. ?hit (fst x)) ?nps)"
    by (simp add: exempt_def ex case_prod_unfold)
  have groups: "optimizer_grouped_parameters env args h = [decayed, exempt]"
    by (simp add: optimizer_grouped_parameters_def decayed_def exempt_def)
  have wd: "pg_weight_decay decayed = weight_decay args" by (simp add: decayed_def)
  have we: "pg_weight_decay exempt = 0" by (simp add: exempt_def)
  have part: "mset (pg_params decayed) + mset (pg_params exempt) = mset (map snd ?nps)"
    unfolding pd pe by (rule mset_filter_split)
  have mem: "\<forall>(n, p) \<in> set ?nps.
          if ?hit n then p \<in> set (pg_params exempt) else p \<in> set (pg_params decayed)"
  proof (clarify)
    fix n p assume np: "(n, p) \<in> set ?nps"
    show "if ?hit n then p \<in> set (pg_params exempt) else p \<in> set (pg_params decayed)"
    proof (cases "?hit n")
      case True
      with np have "(n, p) \<in> set (filter (\<lambda>x. ?hit (fst x)) ?nps)" by simp
      then have "snd (n, p) \<in> set (pg_params exempt)" unfolding pe set_map by (rule imageI)
      with True show ?thesis by simp
    next
      case False
      with np have "(n, p) \<in> set (filter (\<lambda>x. \<not> ?hit (fst x)) ?nps)" by simp
      then have "snd (n, p) \<in> set (pg_params decayed)" unfolding pd set_map by (rule imageI)
      with False show ?thesis by simp
    qed
  qed
  have one: "distinct (map snd ?nps) \<longrightarrow>
          (\<forall>(n, p) \<in> set ?nps.
             (p \<in> set (pg_params exempt)) = ?hit n
           \<and> (p \<in> set (pg_params decayed)) = (\<not> ?hit n))"
  proof (intro impI, clarify)
    fix n p
    assume d: "distinct (map snd ?nps)" and np: "(n, p) \<in> set ?nps"
    have inj: "inj_on snd (set ?nps)" using d by (simp add: distinct_map)
    have uniq: "n' = n" if "(n', p) \<in> set ?nps" for n'
    proof -
      have "snd (n', p) = snd (n, p)" by simp
      with inj that np have "(n', p) = (n, p)" by (blast dest: inj_onD)
      then show ?thesis by simp
    qed
    have a: "(p \<in> set (pg_params exempt)) = ?hit n"
    proof
      assume "p \<in> set (pg_params exempt)"
      then obtain n' where "(n', p) \<in> set ?nps" "?hit n'" unfolding pe by auto
      with uniq show "?hit n" by blast
    next
      assume "?hit n"
      with mem np show "p \<in> set (pg_params exempt)" by auto
    qed
    have b: "(p \<in> set (pg_params decayed)) = (\<not> ?hit n)"
    proof
      assume "p \<in> set (pg_params decayed)"
      then obtain n' where "(n', p) \<in> set ?nps" "\<not> ?hit n'" unfolding pd by auto
      with uniq show "\<not> ?hit n" by blast
    next
      assume "\<not> ?hit n"
      with mem np show "p \<in> set (pg_params decayed)" by auto
    qed
    from a b show "(p \<in> set (pg_params exempt)) = ?hit n
           \<and> (p \<in> set (pg_params decayed)) = (\<not> ?hit n)" by simp
  qed
  from groups wd we part mem one show ?thesis by blast
qed

theorem parameter_groups_partition_witness:
  "optimizer_grouped_parameters env_ex args_ex []
     = [\<lparr>pg_params = [\<lparr>tdevice = Cuda, tdata = 7\<rparr>], pg_weight_decay = 1 / 100\<rparr>,
        \<lparr>pg_params = [\<lparr>tdevice = Cuda, tdata = 8\<rparr>], pg_weight_decay = 0\<rparr>]
   \<and> distinct (map snd (named_parameters env_ex []))
   \<and> sublist ''bias'' ''dense.bias''"
  using parameter_groups_partition [of env_ex args_ex "[]"]
  by (simp add: optimizer_grouped_parameters_def env_ex_def args_ex_def no_decay_def
        str_in_sublist [symmetric])


section \<open>Gradient accumulation\<close>

text \<open>
  C4, as amended.  In every training step whose loss is not NaN, the calls made are the
  move of the batch to the device, the forward pass and \<open>loss.backward\<close>; then, exactly
  when the global step counter (already incremented) is a multiple of
  \<open>args.gradient_accumulation_steps\<close>, the clipping of the gradients to
  \<open>args.max_grad_norm\<close> followed at once by \<open>optimizer.step\<close>, \<open>scheduler.step\<close> and
  \<open>model.zero_grad\<close>; and whatever follows in the step (an evaluation) makes no backward
  pass and no call of the optimizer update.  The counter starts at 0 and is only
  incremented, so it is never negative in a state that \<open>train\<close> reaches
  (\<open>reachable_global_step\<close>): this is the hypothesis \<open>0 \<le> global_step st\<close>.
\<close>

theorem optimizer_update_on_accumulation_steps:
  assumes loss: "forward env (trace st @ [BatchTo (torch_device env) batch]) batch = loss"
      and finite: "\<not> isnan loss"
      and counted: "0 \<le> global_step st"
  shows "\<exists>rest.
           new_calls st (snd (train_batch env args epoch st batch)) =
             [BatchTo (torch_device env) batch,
              Forward (fst batch) (fst (snd batch)) (fst (snd (snd batch)))
                (snd (snd (snd batch))) True,
              Backward loss]
             @ (if gradient_accumulation_steps args dvd global_step st + 1
                then [ClipGradNorm (max_grad_norm args), OptimizerStep, SchedulerStep, ZeroGrad]
                else [])
             @ rest
         \<and> \<not> list_ex update_call rest"
proof -
  let ?gas = "gradient_accumulation_steps args"
  let ?u1 = "[BatchTo (torch_device env) batch,
              Forward (fst batch) (fst (snd batch)) (fst (snd (snd batch)))
                (snd (snd (snd batch))) True,
              Backward loss]"
  let ?u2 = "if ?gas dvd global_step st + 1
             then [ClipGradNorm (max_grad_norm args), OptimizerStep, SchedulerStep, ZeroGrad]
             else []"
  let ?upd = "?u1 @ ?u2"
  let ?st6 = "snd (update_step env args st batch)"
  have multiple: "(?gas \<noteq> 0 \<and> (global_step st + 1) mod ?gas = 0) = (?gas dvd global_step st + 1)"
    using counted by (auto simp: mod_eq_0_iff_dvd)
  have upd: "update_step env args st batch =
      (if ?gas = 0 then Raised ZeroDivisionError else Next,
       st\<lparr>trace := trace st @ ?upd, global_step := global_step st + 1,
          train_losses := train_losses st @ [loss]\<rparr>)"
    unfolding update_step_loss [OF loss finite] multiple by simp
  have tr6: "trace ?st6 = trace st @ ?upd" by (simp add: upd)
  show ?thesis
  proof (cases "?gas \<noteq> 0 \<and> eval_period args \<noteq> 0
                 \<and> (global_step st + 1) mod eval_period args = 0")
    case True
    then have tb: "train_batch env args epoch st batch = evaluation env args epoch ?st6"
      by (simp add: train_batch_cases upd)
    from evaluation_new_calls [of env args epoch ?st6] obtain ies predictions where
      E: "trace (snd (evaluation env args epoch ?st6)) =
            trace ?st6 @ [ModelEvalMode] @ ies @
              [SavePredictions predictions, Evaluate predictions, eval_report env args epoch ?st6]
              @ eval_tail env args epoch ?st6"
         "list_all inference_call ies"
      by blast
    let ?rest = "[ModelEvalMode] @ ies @
              [SavePredictions predictions, Evaluate predictions, eval_report env args epoch ?st6]
              @ eval_tail env args epoch ?st6"
    have "trace (snd (train_batch env args epoch st batch)) = trace st @ (?upd @ ?rest)"
      unfolding tb E(1) tr6 by simp
    then have "new_calls st (snd (train_batch env args epoch st batch)) = ?upd @ ?rest"
      by (rule new_calls_append)
    then have "new_calls st (snd (train_batch env args epoch st batch)) = ?u1 @ ?u2 @ ?rest"
      by simp
    moreover have "\<not> list_ex update_call ?rest"
      using inference_call_not_update [OF E(2)] eval_tail_not_update [of env args epoch ?st6]
      by (simp add: eval_report_def)
    ultimately show ?thesis by blast
  next
    case False
    then have "snd (train_batch env args epoch st batch) = ?st6"
      by (auto simp: train_batch_cases upd)
    then have "trace (snd (train_batch env args epoch st batch)) = trace st @ (?upd @ [])"
      using tr6 by simp
    then have "new_calls st (snd (train_batch env args epoch st batch)) = ?upd @ []"
      by (rule new_calls_append)
    then have "new_calls st (snd (train_batch env args epoch st batch)) = ?u1 @ ?u2 @ []"
      by simp
    moreover have "\<not> list_ex update_call []" by simp
    ultimately show ?thesis by blast
  qed
qed

theorem optimizer_update_on_accumulation_steps_witness:
  "forward env_ex (trace ((train_init [])\<lparr>global_step := 1\<rparr>) @ [BatchTo (torch_device env_ex) (5, 6, 7, 8)]) (5, 6, 7, 8) = Fin 1
   \<and> \<not> isnan (Fin 1)
   \<and> 0 \<le> global_step ((train_init [] :: nat tstate)\<lparr>global_step := 1\<rparr>)
   \<and> gradient_accumulation_steps args_ex dvd global_step ((train_init [] :: nat tstate)\<lparr>global_step := 1\<rparr>) + 1
   \<and> take 7 (new_calls ((train_init [])\<lparr>global_step := 1\<rparr>)
         (snd (train_batch env_ex args_ex 0 ((train_init [])\<lparr>global_step := 1\<rparr>) (5, 6, 7, 8))))
       = [BatchTo Cpu (5, 6, 7, 8), Forward 5 6 7 8 True, Backward (Fin 1),
          ClipGradNorm 1, OptimizerStep, SchedulerStep, ZeroGrad]"
  using optimizer_update_on_accumulation_steps
          [of env_ex "(train_init [])\<lparr>global_step := 1\<rparr>" "(5, 6, 7, 8)" "Fin 1" args_ex 0]
  by (auto simp add: env_ex_def args_ex_def train_init_def isnan_def torch_device_def)

text \<open>
  C4 as stated fails on a step whose loss is NaN: with an update on every step, the first
  step has counter 1, a multiple of 1, and the run makes no optimizer step.
\<close>

theorem nan_step_without_optimizer_update:
  "fst (train env_nan args_every []) = Next
   \<and> global_step (snd (train env_nan args_every [])) = 1
   \<and> gradient_accumulation_steps args_every dvd global_step (snd (train env_nan args_every []))
   \<and> trace (snd (train env_nan args_every [])) =
       [ModelTrainMode, Log StartingTraining, BatchTo Cpu (1, 2, 3, 4), Forward 1 2 3 4 True,
        Log (StopNaN NaN)]
   \<and> OptimizerStep \<notin> set (trace (snd (train env_nan args_every [])))"
  by (simp add: env_nan_def env_ex_def args_every_def args_ex_def train_def train_init_def
        py_range_def py_int_def upt_rec train_batch_def update_step_def emit_def Let_def
        isnan_def torch_device_def)

section \<open>Periodic evaluation\<close>

text \<open>
  C6, as amended.  In every training step that reaches the test of line 78 (its loss is
  not NaN and \<open>args.gradient_accumulation_steps\<close> is not zero), the held-out set is
  evaluated exactly when the global step counter (never negative, see
  \<open>reachable_global_step\<close>) is a multiple of \<open>args.eval_period\<close>, and the step then
  ends as the evaluation does.  Every call of \<open>inference\<close> calls
  \<open>generate\<close> once per dev batch, in order, on the batch's first two tensors with
  \<open>num_beams = dev_data.args.num_beams\<close>, \<open>max_length = dev_data.args.max_output_length\<close>
  and \<open>early_stopping = True\<close>, and returns the mean of \<open>dev_data.evaluate\<close> on the
  predictions its loop collected.
\<close>

theorem evaluation_on_eval_period:
  assumes loss: "forward env (trace st @ [BatchTo (torch_device env) batch]) batch = loss"
      and finite: "\<not> isnan loss"
      and gas: "gradient_accumulation_steps args \<noteq> 0"
      and counted: "0 \<le> global_step st"
  shows "list_ex is_evaluate (new_calls st (snd (train_batch env args epoch st batch)))
           = (eval_period args dvd global_step st + 1)
       \<and> (eval_period args dvd global_step st + 1 \<longrightarrow>
            train_batch env args epoch st batch
              = evaluation env args epoch (snd (update_step env args st batch)))
       \<and> (\<forall>h m save. \<exists>es predictions h'.
            inference env h m save =
              (np_mean env (evaluate env h' predictions),
               h @ es @ (if save then [SavePredictions predictions] else [])
                 @ [Evaluate predictions])
          \<and> inference_loop env m (dev_dataloader env h) (h, []) = (h @ es, predictions)
          \<and> length predictions = length (dev_dataloader env h)
          \<and> filter is_generate es =
              map (\<lambda>b. Generate m (fst b) (fst (snd b)) (num_beams (dev_data_args env))
                         (max_output_length (dev_data_args env)) True)
                (dev_dataloader env h))"
proof -
  let ?ep = "eval_period args"
  let ?st6 = "snd (update_step env args st batch)"
  have multiple: "(?ep \<noteq> 0 \<and> (global_step st + 1) mod ?ep = 0) = (?ep dvd global_step st + 1)"
    using counted by (auto simp: mod_eq_0_iff_dvd)
  have upd: "fst (update_step env args st batch) = Next"
    using gas by (simp add: update_step_loss [OF loss finite])
  from update_step_extends [of env args st batch] obtain us where
    us: "trace ?st6 = trace st @ us" "list_all step_call us"
    by blast
  have inf: "\<forall>h m save. \<exists>es predictions h'.
            inference env h m save =
              (np_mean env (evaluate env h' predictions),
               h @ es @ (if save then [SavePredictions predictions] else [])
                 @ [Evaluate predictions])
          \<and> inference_loop env m (dev_dataloader env h) (h, []) = (h @ es, predictions)
          \<and> length predictions = length (dev_dataloader env h)
          \<and> filter is_generate es =
              map (\<lambda>b. Generate m (fst b) (fst (snd b)) (num_beams (dev_data_args env))
                         (max_output_length (dev_data_args env)) True)
                (dev_dataloader env h)"
  proof (intro allI)
    fix h m save
    from inference_trace [of env h m save]
    show "\<exists>es predictions h'.
            inference env h m save =
              (np_mean env (evaluate env h' predictions),
               h @ es @ (if save then [SavePredictions predictions] else [])
                 @ [Evaluate predictions])
          \<and> inference_loop env m (dev_dataloader env h) (h, []) = (h @ es, predictions)
          \<and> length predictions = length (dev_dataloader env h)
          \<and> filter is_generate es =
              map (\<lambda>b. Generate m (fst b) (fst (snd b)) (num_beams (dev_data_args env))
                         (max_output_length (dev_data_args env)) True)
                (dev_dataloader env h)"
      by blast
  qed
  show ?thesis
  proof (cases "?ep dvd global_step st + 1")
    case True
    with multiple have "?ep \<noteq> 0" "(global_step st + 1) mod ?ep = 0" by blast+
    then have tb: "train_batch env args epoch st batch = evaluation env args epoch ?st6"
      by (simp add: train_batch_next [OF upd])
    from evaluation_new_calls [of env args epoch ?st6] obtain ies predictions where
      E: "trace (snd (evaluation env args epoch ?st6)) =
            trace ?st6 @ [ModelEvalMode] @ ies @
              [SavePredictions predictions, Evaluate predictions, eval_report env args epoch ?st6]
              @ eval_tail env args epoch ?st6"
      by blast
    have "trace (snd (train_batch env args epoch st batch)) =
            trace st @ (us @ [ModelEvalMode] @ ies @
              [SavePredictions predictions, Evaluate predictions, eval_report env args epoch ?st6]
              @ eval_tail env args epoch ?st6)"
      unfolding tb E us(1) by simp
    then have "new_calls st (snd (train_batch env args epoch st batch)) =
            us @ [ModelEvalMode] @ ies @
              [SavePredictions predictions, Evaluate predictions, eval_report env args epoch ?st6]
              @ eval_tail env args epoch ?st6"
      by (rule new_calls_append)
    then have "list_ex is_evaluate (new_calls st (snd (train_batch env args epoch st batch)))"
      by simp
    with True tb inf show ?thesis by simp
  next
    case False
    with multiple have "?ep = 0 \<or> (global_step st + 1) mod ?ep \<noteq> 0" by blast
    then have "snd (train_batch env args epoch st batch) = ?st6"
      by (auto simp: train_batch_next [OF upd])
    then have "trace (snd (train_batch env args epoch st batch)) = trace st @ us"
      using us(1) by simp
    then have "new_calls st (snd (train_batch env args epoch st batch)) = us"
      by (rule new_calls_append)
    then have "\<not> list_ex is_evaluate (new_calls st (snd (train_batch env args epoch st batch)))"
      using step_call_not_evaluate [OF us(2)] by simp
    with False inf show ?thesis by simp
  qed
qed

theorem evaluation_on_eval_period_witness:
  "forward env_ex (trace ((train_init [])\<lparr>global_step := 1\<rparr>) @ [BatchTo (torch_device env_ex) (5, 6, 7, 8)]) (5, 6, 7, 8) = Fin 1
   \<and> \<not> isnan (Fin 1)
   \<and> gradient_accumulation_steps args_ex \<noteq> 0
   \<and> 0 \<le> global_step ((train_init [] :: nat tstate)\<lparr>global_step := 1\<rparr>)
   \<and> eval_period args_ex dvd global_step ((train_init [] :: nat tstate)\<lparr>global_step := 1\<rparr>) + 1
   \<and> list_ex is_evaluate (new_calls ((train_init [])\<lparr>global_step := 1\<rparr>)
         (snd (train_batch env_ex args_ex 0 ((train_init [])\<lparr>global_step := 1\<rparr>) (5, 6, 7, 8))))"
  using evaluation_on_eval_period
          [of env_ex "(train_init [])\<lparr>global_step := 1\<rparr>" "(5, 6, 7, 8)" "Fin 1" args_ex 0]
  by (simp add: run_defs ex_defs)

text \<open>
  C6 as stated fails on a step whose loss is NaN: with an evaluation on every step, the
  first step has counter 1, a multiple of 1, and the run neither evaluates nor generates.
\<close>

theorem nan_step_without_evaluation:
  "fst (train env_nan args_every []) = Next
   \<and> global_step (snd (train env_nan args_every [])) = 1
   \<and> eval_period args_every dvd global_step (snd (train env_nan args_every []))
   \<and> trace (snd (train env_nan args_every [])) =
       [ModelTrainMode, Log StartingTraining, BatchTo Cpu (1, 2, 3, 4), Forward 1 2 3 4 True,
        Log (StopNaN NaN)]
   \<and> \<not> list_ex is_evaluate (trace (snd (train env_nan args_every [])))
   \<and> \<not> list_ex is_generate (trace (snd (train env_nan args_every [])))"
  by (simp add: env_nan_def env_ex_def args_every_def args_ex_def train_def train_init_def
        py_range_def py_int_def upt_rec train_batch_def update_step_def emit_def Let_def
        isnan_def torch_device_def)

section \<open>Predictions saved during training\<close>

text \<open>
  C10.  The default of \<open>save_predictions\<close> is \<open>True\<close> and \<open>train\<close> does not override
  it: every evaluation calls \<open>dev_data.save_predictions\<close> on the predictions that its
  loop over the dev batches collected, right before \<open>dev_data.evaluate\<close>; so does every
  training step that evaluates.  A call of \<open>inference\<close> with \<open>save_predictions = False\<close>
  would not.
\<close>

theorem training_evaluation_saves_predictions:
  "save_predictions_default = True
   \<and> (\<exists>ies predictions rest.
         new_calls st (snd (evaluation env args epoch st)) =
           [ModelEvalMode] @ ies @ [SavePredictions predictions, Evaluate predictions] @ rest
       \<and> inference_loop env (eval_target args) (dev_dataloader env (trace st @ [ModelEvalMode]))
             (trace st @ [ModelEvalMode], [])
           = (trace st @ [ModelEvalMode] @ ies, predictions))
   \<and> (fst (update_step env args st batch) = Next \<and> eval_period args \<noteq> 0
        \<and> (global_step st + 1) mod eval_period args = 0 \<longrightarrow>
          list_ex is_save_predictions
            (new_calls st (snd (train_batch env args epoch st batch))))
   \<and> \<not> list_ex is_save_predictions (drop (length h) (snd (inference env h m False)))"
proof -
  have ev: "\<exists>ies predictions rest.
         new_calls st' (snd (evaluation env args epoch st')) =
           [ModelEvalMode] @ ies @ [SavePredictions predictions, Evaluate predictions] @ rest
       \<and> inference_loop env (eval_target args) (dev_dataloader env (trace st' @ [ModelEvalMode]))
             (trace st' @ [ModelEvalMode], [])
           = (trace st' @ [ModelEvalMode] @ ies, predictions)" for st'
  proof -
    from evaluation_new_calls [of env args epoch st'] obtain ies predictions where
      E: "trace (snd (evaluation env args epoch st')) =
            trace st' @ ([ModelEvalMode] @ ies @
              [SavePredictions predictions, Evaluate predictions]
              @ (eval_report env args epoch st' # eval_tail env args epoch st'))"
         "inference_loop env (eval_target args) (dev_dataloader env (trace st' @ [ModelEvalMode]))
             (trace st' @ [ModelEvalMode], [])
           = (trace st' @ [ModelEvalMode] @ ies, predictions)"
      by auto
    from new_calls_append [OF E(1)] E(2) show ?thesis by blast
  qed
  have tb: "list_ex is_save_predictions
            (new_calls st (snd (train_batch env args epoch st batch)))"
    if run: "fst (update_step env args st batch) = Next" "eval_period args \<noteq> 0"
       "(global_step st + 1) mod eval_period args = 0"
  proof -
    let ?st6 = "snd (update_step env args st batch)"
    from update_step_extends [of env args st batch] obtain us where
      us: "trace ?st6 = trace st @ us" by blast
    have eq: "train_batch env args epoch st batch = evaluation env args epoch ?st6"
      using run(2,3) by (simp add: train_batch_next [OF run(1)])
    from ev [of ?st6] obtain ies predictions rest where
      "new_calls ?st6 (snd (evaluation env args epoch ?st6)) =
           [ModelEvalMode] @ ies @ [SavePredictions predictions, Evaluate predictions] @ rest"
      by blast
    then have "drop (length (trace st) + length us) (trace (snd (evaluation env args epoch ?st6)))
          = [ModelEvalMode] @ ies @ [SavePredictions predictions, Evaluate predictions] @ rest"
      by (simp add: new_calls_def us)
    moreover have "drop (length (trace st) + length us) (trace (snd (evaluation env args epoch ?st6)))
          = drop (length us) (new_calls st (snd (train_batch env args epoch st batch)))"
      by (simp add: new_calls_def eq add.commute)
    ultimately have "SavePredictions predictions
          \<in> set (drop (length us) (new_calls st (snd (train_batch env args epoch st batch))))"
      by simp
    then have "SavePredictions predictions
          \<in> set (new_calls st (snd (train_batch env args epoch st batch)))"
      by (rule in_set_dropD)
    then show ?thesis unfolding list_ex_iff by (rule bexI [rotated]) simp
  qed
  have off: "\<not> list_ex is_save_predictions (drop (length h) (snd (inference env h m False)))"
  proof -
    from inference_trace [of env h m False] obtain es predictions where
      I: "snd (inference env h m False) = h @ es @ [Evaluate predictions]"
         "\<forall>p. SavePredictions p \<notin> set es"
      by auto
    have "\<not> list_ex is_save_predictions es"
    proof
      assume "list_ex is_save_predictions es"
      then obtain e where e: "e \<in> set es" "is_save_predictions e" unfolding list_ex_iff by blast
      from e(2) obtain p where "e = SavePredictions p" by (cases e) simp_all
      with e(1) I(2) show False by blast
    qed
    then show ?thesis by (simp add: I(1))
  qed
  from ev [of st] tb off show ?thesis by (simp add: save_predictions_default_def)
qed

theorem training_evaluation_saves_predictions_witness:
  "fst (update_step env_ex args_ex ((train_init [])\<lparr>global_step := 1\<rparr>) (5, 6, 7, 8)) = Next
   \<and> eval_period args_ex \<noteq> 0
   \<and> (global_step ((train_init [] :: nat tstate)\<lparr>global_step := 1\<rparr>) + 1) mod eval_period args_ex = 0
   \<and> list_ex is_save_predictions (new_calls ((train_init [])\<lparr>global_step := 1\<rparr>)
         (snd (train_batch env_ex args_ex 0 ((train_init [])\<lparr>global_step := 1\<rparr>) (5, 6, 7, 8))))"
  using training_evaluation_saves_predictions
          [of "(train_init [])\<lparr>global_step := 1\<rparr>" env_ex args_ex 0 "(5, 6, 7, 8)" "[]" Model]
  by (simp add: run_defs ex_defs)

section \<open>The best checkpoint\<close>

text \<open>
  C1.  The best score starts at -1.  A training step writes a checkpoint exactly when it
  runs a periodic evaluation whose score is strictly above the best score so far; an
  evaluation then writes exactly one, to \<open>os.path.join(args.output_dir, "best-model.pt")\<close>
  (which is \<open><output_dir>/best-model.pt\<close> for a directory name that is not empty and has
  no trailing slash), and the object written is the model's state dict with the same keys
  and the same data, every tensor on the CPU.  The evaluation sets \<open>best_accuracy\<close> to the
  new score when it improves and leaves it alone otherwise, so \<open>best_accuracy\<close> never
  decreases: not over a step, not over the batch loop, not over the epoch loop, and it is
  at least -1 when \<open>train\<close> ends.
\<close>

theorem best_model_checkpoint:
  fixes env :: "'t env" and d :: "(string \<times> 't tensor) list"
  shows
  "best_accuracy (train_init h :: 't tstate) = Fin (- 1)
   \<and> list_ex is_torch_save (new_calls st (snd (train_batch env args epoch st batch)))
       = (evaluates env args st batch
          \<and> fl_less (best_accuracy st)
              (fst (eval_inference env args (snd (update_step env args st batch)))))
   \<and> filter is_torch_save (new_calls st (snd (evaluation env args epoch st)))
       = (if fl_less (best_accuracy st) (fst (eval_inference env args st))
          then [TorchSave
                  (map (\<lambda>(k, v). (k, cpu v))
                     (state_dict env
                        (snd (eval_inference env args st) @ [eval_report env args epoch st])))
                  (path_join (output_dir args) ''best-model.pt'')]
          else [])
   \<and> (output_dir args \<noteq> [] \<and> last (output_dir args) \<noteq> CHR ''/'' \<longrightarrow>
        path_join (output_dir args) ''best-model.pt'' = output_dir args @ ''/best-model.pt'')
   \<and> map fst (map (\<lambda>(k, v). (k, cpu v)) d) = map fst d
   \<and> (\<forall>(k, v) \<in> set (map (\<lambda>(k, v). (k, cpu v)) d). tdevice v = Cpu)
   \<and> map (tdata \<circ> snd) (map (\<lambda>(k, v). (k, cpu v)) d) = map (tdata \<circ> snd) d
   \<and> best_accuracy (snd (evaluation env args epoch st))
       = (if fl_less (best_accuracy st) (fst (eval_inference env args st))
          then fst (eval_inference env args st) else best_accuracy st)
   \<and> (best_accuracy st \<noteq> NaN \<longrightarrow>
          fl_le (best_accuracy st) (best_accuracy (snd (train_batch env args epoch st batch)))
        \<and> fl_le (best_accuracy st) (best_accuracy (snd (batch_loop env args epoch bs st)))
        \<and> fl_le (best_accuracy st) (best_accuracy (snd (epoch_loop env args es st))))
   \<and> fl_le (Fin (- 1)) (best_accuracy (snd (train env args h)))"
proof -
  have a: "best_accuracy (train_init h :: 't tstate) = Fin (- 1)"
    by (simp add: train_init_def)
  have b: "list_ex is_torch_save (new_calls st (snd (train_batch env args epoch st batch)))
       = (evaluates env args st batch
          \<and> fl_less (best_accuracy st)
              (fst (eval_inference env args (snd (update_step env args st batch)))))"
  proof -
    have "list_ex is_torch_save (new_calls st (snd (train_batch env args epoch st batch)))
        = (filter is_torch_save (new_calls st (snd (train_batch env args epoch st batch))) \<noteq> [])"
      by (simp add: list_ex_iff filter_empty_conv)
    then show ?thesis
      by (simp add: train_batch_torch_save eval_tail_torch_save update_step_fields)
  qed
  have c: "filter is_torch_save (new_calls st (snd (evaluation env args epoch st)))
       = (if fl_less (best_accuracy st) (fst (eval_inference env args st))
          then [TorchSave
                  (map (\<lambda>(k, v). (k, cpu v))
                     (state_dict env
                        (snd (eval_inference env args st) @ [eval_report env args epoch st])))
                  (path_join (output_dir args) ''best-model.pt'')]
          else [])"
    by (simp only: evaluation_torch_save eval_tail_torch_save)
  have p: "output_dir args \<noteq> [] \<and> last (output_dir args) \<noteq> CHR ''/'' \<longrightarrow>
        path_join (output_dir args) ''best-model.pt'' = output_dir args @ ''/best-model.pt''"
    by (simp add: path_join_def)
  have e: "best_accuracy (snd (evaluation env args epoch st))
       = (if fl_less (best_accuracy st) (fst (eval_inference env args st))
          then fst (eval_inference env args st) else best_accuracy st)"
    by (rule evaluation_fields)
  have t: "fl_le (Fin (- 1)) (best_accuracy (snd (train env args h)))"
    using epoch_loop_best_mono [of "train_init h" env args "py_range (py_int (num_train_epochs args))"]
    by (simp add: train_def train_init_def)
  from a b c p cpu_state_dict [of d] e train_batch_best_mono [of st env args epoch batch]
    batch_loop_best_mono [of st env args epoch bs] epoch_loop_best_mono [of st env args es] t
  show ?thesis by blast
qed

theorem best_model_checkpoint_witness:
  "evaluates env_ex args_ex ((train_init [])\<lparr>global_step := 1\<rparr>) (5, 6, 7, 8)
   \<and> fl_less (Fin (- 1)) (Fin 1)
   \<and> output_dir args_ex \<noteq> [] \<and> last (output_dir args_ex) \<noteq> CHR ''/''
   \<and> best_accuracy ((train_init [] :: nat tstate)\<lparr>global_step := 1\<rparr>) \<noteq> NaN
   \<and> filter is_torch_save (new_calls ((train_init [])\<lparr>global_step := 1\<rparr>)
         (snd (train_batch env_ex args_ex 0 ((train_init [])\<lparr>global_step := 1\<rparr>) (5, 6, 7, 8))))
       = [TorchSave [(''shared.weight'', \<lparr>tdevice = Cpu, tdata = 7\<rparr>)] ''out/best-model.pt'']
   \<and> best_accuracy
         (snd (train_batch env_ex args_ex 0 ((train_init [])\<lparr>global_step := 1\<rparr>) (5, 6, 7, 8)))
       = Fin 1
   \<and> map (tdevice \<circ> snd) (map (\<lambda>(k, v). (k, cpu v)) (state_dict env_ex [])) = [Cpu]"
  using best_model_checkpoint
          [of "[]" "(train_init [])\<lparr>global_step := 1\<rparr>" env_ex args_ex 0 "(5, 6, 7, 8)"
              "state_dict env_ex []" "[]" "[]"]
  by (simp add: run_defs ex_defs evaluates_def)

section \<open>Early stopping\<close>

text \<open>
  C2, as amended.  At a periodic evaluation (the batch body entered in state \<open>st1\<close>,
  after the batches \<open>pre\<close> of the epoch): a strict improvement of \<open>best_accuracy\<close> sets
  the wait counter to zero and training goes on.  Without a strict improvement, and when
  an earlier improvement has set the counter, the counter is incremented, and training
  halts exactly when the incremented counter is greater than or equal to
  \<open>args.wait_step\<close>: the batch loop breaks with \<open>stop_training\<close> set and the epoch loop
  ends without an exception, whatever batches and epochs were left; below the threshold the
  step falls through and \<open>stop_training\<close> stays as it was.
\<close>

theorem early_stopping_patience:
  assumes before: "batch_loop env args epoch pre st0 = (Next, st1)"
      and loader: "train_dataloader env (trace st0) = pre @ batch # rest"
      and periodic: "evaluates env args st1 batch"
  shows "(fl_less (best_accuracy st1)
            (fst (eval_inference env args (snd (update_step env args st1 batch)))) \<longrightarrow>
            fst (train_batch env args epoch st1 batch) = Next
          \<and> wait_step_var (snd (train_batch env args epoch st1 batch)) = Some 0
          \<and> \<not> stop_training (snd (train_batch env args epoch st1 batch)))
       \<and> (\<not> fl_less (best_accuracy st1)
              (fst (eval_inference env args (snd (update_step env args st1 batch))))
          \<and> wait_step_var st1 = Some w \<longrightarrow>
            wait_step_var (snd (train_batch env args epoch st1 batch)) = Some (w + 1)
          \<and> (fst (train_batch env args epoch st1 batch) = Broke) = (wait_step args \<le> w + 1)
          \<and> (wait_step args \<le> w + 1 \<longrightarrow>
                stop_training (snd (train_batch env args epoch st1 batch))
              \<and> epoch_loop env args (epoch # later) st0
                  = (Next, snd (train_batch env args epoch st1 batch)))
          \<and> (\<not> wait_step args \<le> w + 1 \<longrightarrow>
                fst (train_batch env args epoch st1 batch) = Next
              \<and> stop_training (snd (train_batch env args epoch st1 batch))
                  = stop_training st1))"
proof -
  let ?st = "snd (update_step env args st1 batch)"
  let ?curr = "fst (eval_inference env args ?st)"
  let ?tb = "train_batch env args epoch st1 batch"
  have tb: "?tb = evaluation env args epoch ?st"
    using periodic by (rule train_batch_evaluates)
  have next6: "fst (update_step env args st1 batch) = Next"
    using periodic by (simp add: evaluates_def)
  have best: "best_accuracy ?st = best_accuracy st1" and wait: "wait_step_var ?st = wait_step_var st1"
    by (simp_all add: update_step_fields)
  have stop: "stop_training ?st = stop_training st1"
    using next6 by (rule update_step_stop_training)
  have improved: "fst ?tb = Next \<and> wait_step_var (snd ?tb) = Some 0 \<and> \<not> stop_training (snd ?tb)"
    if "fl_less (best_accuracy st1) ?curr"
    using that unfolding tb by (simp add: evaluation_cases best Let_def)
  have same: "wait_step_var (snd ?tb) = Some (w + 1)
          \<and> (fst ?tb = Broke) = (wait_step args \<le> w + 1)
          \<and> (wait_step args \<le> w + 1 \<longrightarrow> stop_training (snd ?tb))
          \<and> (\<not> wait_step args \<le> w + 1 \<longrightarrow>
                fst ?tb = Next \<and> stop_training (snd ?tb) = stop_training st1)"
    if "\<not> fl_less (best_accuracy st1) ?curr" "wait_step_var st1 = Some w"
    using that unfolding tb by (simp add: evaluation_cases best wait stop Let_def)
  have halt: "epoch_loop env args (epoch # later) st0 = (Next, snd ?tb)"
    if "\<not> fl_less (best_accuracy st1) ?curr" "wait_step_var st1 = Some w"
       "wait_step args \<le> w + 1"
  proof -
    from same [OF that(1,2)] that(3) have b: "fst ?tb = Broke" "stop_training (snd ?tb)"
      by simp_all
    then have "fst ?tb \<noteq> Next" by simp
    from batch_loop_stops [OF before this, of rest]
    have "batch_loop env args epoch (train_dataloader env (trace st0)) st0 = (Broke, snd ?tb)"
      using b(1) by (simp add: loader prod_eq_iff)
    then show ?thesis using b(2) by (rule epoch_loop_broke)
  qed
  from improved same halt show ?thesis by blast
qed

theorem early_stopping_patience_witness:
  "batch_loop env_ex args_ex 1 [(1, 2, 3, 4)] st_improved
     = (Next, snd (batch_loop env_ex args_ex 1 [(1, 2, 3, 4)] st_improved))
   \<and> train_dataloader env_ex (trace st_improved) = [(1, 2, 3, 4)] @ (5, 6, 7, 8) # []
   \<and> evaluates env_ex args_ex (snd (batch_loop env_ex args_ex 1 [(1, 2, 3, 4)] st_improved))
       (5, 6, 7, 8)
   \<and> wait_step_var (snd (batch_loop env_ex args_ex 1 [(1, 2, 3, 4)] st_improved)) = Some 0
   \<and> wait_step args_ex \<le> 0 + 1
   \<and> fst (epoch_loop env_ex args_ex [1, 2] st_improved) = Next
   \<and> global_step (snd (epoch_loop env_ex args_ex [1, 2] st_improved)) = 4
   \<and> wait_step_var (snd (epoch_loop env_ex args_ex [1, 2] st_improved)) = Some 1"
  using early_stopping_patience
          [of env_ex args_ex 1 "[(1, 2, 3, 4)]" st_improved
              "snd (batch_loop env_ex args_ex 1 [(1, 2, 3, 4)] st_improved)"
              "(5, 6, 7, 8)" "[]" 0 "[2]"]
  by (simp add: run_defs ex_defs evaluates_def st_improved_def eval_inference_def
        eval_target_def)

text \<open>
  C2 as stated fails: with \<open>args.wait_step = 1\<close>, three epochs of two batches and a
  constant score, the second evaluation brings the counter to 1, which does not exceed 1,
  and training halts there, at step 4 of 6.
\<close>

theorem halts_when_counter_equals_threshold:
  "fst (train env_ex args_ex []) = Next
   \<and> stop_training (snd (train env_ex args_ex []))
   \<and> global_step (snd (train env_ex args_ex [])) = 4
   \<and> length (py_range (py_int (num_train_epochs args_ex))) * length (train_dataloader env_ex []) = 6
   \<and> wait_step_var (snd (train env_ex args_ex [])) = Some 1
   \<and> wait_step args_ex = 1
   \<and> \<not> (wait_step args_ex < 1)"
  by (simp add: run_defs ex_defs)

section \<open>The wait counter before the first improvement\<close>

text \<open>
  C8.  \<open>wait_step\<close> is unbound when \<open>train\<close> starts, and a batch body binds it only in
  the improvement branch of an evaluation (to 0); elsewhere it keeps an unbound name
  unbound.  So at the first periodic evaluation of a run (no evaluation has logged since
  \<open>train\<close> was entered) the name is unbound and the best score is -1, and if the score of
  that evaluation is not strictly above -1, the batch body raises \<open>UnboundLocalError\<close>
  right after the evaluation's log line, and so does the epoch loop, hence \<open>train\<close>.
  The witness is a run with an empty dev set, whose mean score is NaN.
\<close>

theorem unbound_wait_step:
  assumes reach: "reachable env args h st"
      and first: "\<not> list_ex is_report (drop (length h) (trace st))"
      and periodic: "evaluates env args st batch"
      and low: "\<not> fl_less (Fin (- 1))
                  (fst (eval_inference env args (snd (update_step env args st batch))))"
  shows "wait_step_var (train_init h :: 't tstate) = None
       \<and> wait_step_var st = None
       \<and> train_batch env args epoch st batch =
           (Raised UnboundLocalError,
            (snd (update_step env args st batch))
              \<lparr>trace := snd (eval_inference env args (snd (update_step env args st batch)))
                         @ [eval_report env args epoch (snd (update_step env args st batch))],
               train_losses := []\<rparr>)
       \<and> (batch_loop env args epoch pre st0 = (Next, st)
            \<and> train_dataloader env (trace st0) = pre @ batch # rest \<longrightarrow>
              fst (epoch_loop env args (epoch # later) st0) = Raised UnboundLocalError)
       \<and> wait_step_var (snd (train_batch env args epoch' st' batch')) =
           (if evaluates env args st' batch'
            then if fl_less (best_accuracy st')
                      (fst (eval_inference env args (snd (update_step env args st' batch'))))
                 then Some 0
                 else map_option (\<lambda>w. w + 1) (wait_step_var st')
            else wait_step_var st')"
proof -
  let ?st6 = "snd (update_step env args st batch)"
  from reachable_first [OF reach first] have
    unbound: "wait_step_var st = None" and best: "best_accuracy st = Fin (- 1)"
    by simp_all
  have tb: "train_batch env args epoch st batch =
           (Raised UnboundLocalError,
            ?st6\<lparr>trace := snd (eval_inference env args ?st6) @ [eval_report env args epoch ?st6],
                 train_losses := []\<rparr>)"
    using low
    by (simp add: train_batch_evaluates [OF periodic] evaluation_cases update_step_fields
          unbound best Let_def)
  have raise: "fst (epoch_loop env args (epoch # later) st0) = Raised UnboundLocalError"
    if run: "batch_loop env args epoch pre st0 = (Next, st)"
       "train_dataloader env (trace st0) = pre @ batch # rest"
  proof -
    have "fst (train_batch env args epoch st batch) \<noteq> Next" by (simp add: tb)
    from batch_loop_stops [OF run(1) this, of rest]
    have "batch_loop env args epoch (train_dataloader env (trace st0)) st0
            = train_batch env args epoch st batch"
      by (simp add: run(2))
    then show ?thesis by (simp add: tb)
  qed
  have init: "wait_step_var (train_init h :: 't tstate) = None"
    by (simp add: train_init_def)
  from init unbound tb raise train_batch_wait [of env args epoch' st' batch']
  show ?thesis by blast
qed

theorem unbound_wait_step_witness:
  "reachable env_empty_dev args_ex [] (st_after_one env_empty_dev)
   \<and> \<not> list_ex is_report (drop (length ([] :: nat event list)) (trace (st_after_one env_empty_dev)))
   \<and> evaluates env_empty_dev args_ex (st_after_one env_empty_dev) (5, 6, 7, 8)
   \<and> fst (eval_inference env_empty_dev args_ex
            (snd (update_step env_empty_dev args_ex (st_after_one env_empty_dev) (5, 6, 7, 8))))
       = NaN
   \<and> fst (train_batch env_empty_dev args_ex 0 (st_after_one env_empty_dev) (5, 6, 7, 8))
       = Raised UnboundLocalError
   \<and> fst (train env_empty_dev args_ex []) = Raised UnboundLocalError"
proof -
  have a: "\<not> list_ex is_report
             (drop (length ([] :: nat event list)) (trace (st_after_one env_empty_dev)))"
    by (simp add: st_after_one_def run_defs ex_defs)
  have b: "evaluates env_empty_dev args_ex (st_after_one env_empty_dev) (5, 6, 7, 8)"
    by (simp add: st_after_one_def evaluates_def run_defs ex_defs)
  have c: "fst (eval_inference env_empty_dev args_ex
            (snd (update_step env_empty_dev args_ex (st_after_one env_empty_dev) (5, 6, 7, 8))))
       = NaN"
    by (simp add: st_after_one_def eval_inference_def eval_target_def run_defs ex_defs)
  have d: "\<not> fl_less (Fin (- 1)) (fst (eval_inference env_empty_dev args_ex
            (snd (update_step env_empty_dev args_ex (st_after_one env_empty_dev) (5, 6, 7, 8)))))"
    by (simp add: c)
  have e: "batch_loop env_empty_dev args_ex 0 [(1, 2, 3, 4)] (train_init [])
             = (Next, st_after_one env_empty_dev)"
    by (simp add: st_after_one_def run_defs ex_defs)
  have f: "train_dataloader env_empty_dev (trace (train_init [] :: nat tstate))
             = [(1, 2, 3, 4)] @ (5, 6, 7, 8) # []"
    by (simp add: ex_defs)
  from unbound_wait_step [OF reachable_after_one a b d,
         of 0 "[(1, 2, 3, 4)]" "train_init []" "[]" "[1, 2]"] e f
  have "fst (train_batch env_empty_dev args_ex 0 (st_after_one env_empty_dev) (5, 6, 7, 8))
          = Raised UnboundLocalError"
       "fst (epoch_loop env_empty_dev args_ex [0, 1, 2] (train_init [])) = Raised UnboundLocalError"
    by simp_all
  moreover have "py_range (py_int (num_train_epochs args_ex)) = [0, 1, 2]"
    by (simp add: py_range_def py_int_def args_ex_def upt_rec)
  ultimately show ?thesis using reachable_after_one a b c by (simp add: train_def)
qed

section \<open>The running loss buffer\<close>

text \<open>
  C7.  In every state that \<open>train\<close> reaches between two batches, \<open>train_losses\<close> holds
  exactly the losses that went through a backward pass since the last evaluation log line
  (since the start of training when there is none).  A step that evaluates logs the mean
  of exactly these losses, its own included: the calls \<open>pre\<close> before the log line record
  the losses whose mean the line reports.  The buffer is empty after the step, and no loss
  is recorded after the log line.
\<close>

theorem loss_buffer_reset_at_evaluation:
  assumes reach: "reachable env args h st"
      and periodic: "evaluates env args st batch"
  shows "train_losses st = recorded_losses (trace st)
       \<and> (\<exists>pre. trace (snd (train_batch env args epoch st batch)) =
                   pre @ [eval_report env args epoch (snd (update_step env args st batch))]
                     @ eval_tail env args epoch (snd (update_step env args st batch))
              \<and> eval_report env args epoch (snd (update_step env args st batch)) =
                  Log (StepReport (global_step st + 1) (np_mean env (recorded_losses pre))
                         (metric env)
                         (fst (eval_inference env args (snd (update_step env args st batch))))
                         epoch))
       \<and> train_losses (snd (train_batch env args epoch st batch)) = []
       \<and> recorded_losses (trace (snd (train_batch env args epoch st batch))) = []"
proof -
  let ?st6 = "snd (update_step env args st batch)"
  let ?tb = "snd (train_batch env args epoch st batch)"
  have inv: "train_losses st = recorded_losses (trace st)"
    using reach by (rule reachable_losses)
  from train_batch_new_calls [of env args st batch epoch] periodic obtain us ies predictions where
    us: "trace ?st6 = trace st @ us"
    and E: "train_batch env args epoch st batch = evaluation env args epoch ?st6"
         "list_all inference_call ies"
         "trace ?tb = trace st @ us @ [ModelEvalMode] @ ies @
                      [SavePredictions predictions, Evaluate predictions,
                       eval_report env args epoch ?st6]
                      @ eval_tail env args epoch ?st6"
    by auto
  let ?pre = "trace st @ us @ [ModelEvalMode] @ ies @
                [SavePredictions predictions, Evaluate predictions]"
  have l6: "train_losses ?st6 = recorded_losses (trace st @ us)"
    using update_step_recorded [OF us] inv by (simp add: recorded_losses_def recorded_append)
  have pre: "recorded_losses ?pre = train_losses ?st6"
    unfolding l6 recorded_losses_def
    by (simp add: recorded_append recorded_inference [OF E(2)])
  have shape: "trace ?tb = ?pre @ [eval_report env args epoch ?st6]
                 @ eval_tail env args epoch ?st6"
    using E(3) by simp
  have line: "eval_report env args epoch ?st6 =
                  Log (StepReport (global_step st + 1) (np_mean env (recorded_losses ?pre))
                         (metric env) (fst (eval_inference env args ?st6)) epoch)"
    unfolding pre by (simp add: eval_report_def update_step_fields)
  have reset: "train_losses ?tb = []"
    by (simp add: E(1) evaluation_fields)
  have after: "recorded_losses (trace ?tb) = []"
    unfolding shape recorded_losses_def
    by (simp add: recorded_append recorded_report recorded_eval_tail)
  from inv shape line reset after show ?thesis by blast
qed

theorem loss_buffer_reset_at_evaluation_witness:
  "reachable env_ex args_ex [] (st_after_one env_ex)
   \<and> evaluates env_ex args_ex (st_after_one env_ex) (5, 6, 7, 8)
   \<and> train_losses (st_after_one env_ex) = [Fin 1]
   \<and> recorded_losses (trace (st_after_one env_ex)) = [Fin 1]
   \<and> eval_report env_ex args_ex 0
        (snd (update_step env_ex args_ex (st_after_one env_ex) (5, 6, 7, 8)))
       = Log (StepReport 2 (Fin 1) ''EM'' (Fin 1) 0)
   \<and> train_losses (snd (train_batch env_ex args_ex 0 (st_after_one env_ex) (5, 6, 7, 8))) = []"
proof -
  have b: "evaluates env_ex args_ex (st_after_one env_ex) (5, 6, 7, 8)"
    by (simp add: st_after_one_def evaluates_def run_defs ex_defs)
  have c: "train_losses (st_after_one env_ex) = [Fin 1]"
    by (simp add: st_after_one_def run_defs ex_defs)
  have d: "eval_report env_ex args_ex 0
        (snd (update_step env_ex args_ex (st_after_one env_ex) (5, 6, 7, 8)))
       = Log (StepReport 2 (Fin 1) ''EM'' (Fin 1) 0)"
    by (simp add: st_after_one_def eval_report_def eval_inference_def eval_target_def
          run_defs ex_defs)
  from loss_buffer_reset_at_evaluation [OF reachable_after_one b, of 0] c
  have "recorded_losses (trace (st_after_one env_ex)) = [Fin 1]"
       "train_losses (snd (train_batch env_ex args_ex 0 (st_after_one env_ex) (5, 6, 7, 8))) = []"
    by simp_all
  with reachable_after_one b c d show ?thesis by simp
qed

section \<open>Prediction without a checkpoint loader\<close>

text \<open>
  C5.  In \<open>do_predict\<close> mode the path \<open>os.path.join(args.output_dir, "best-model.pt")\<close>
  is computed and logged, and nothing is read from it: no call of \<open>run\<close> loads a state
  dict, in any mode.  \<open>inference\<close> is entered right after the log line and \<open>model.eval()\<close>,
  on the model as the calls before left it: after the setup alone (the pretrained weights)
  when \<open>do_train\<close> is off, after the calls of \<open>train\<close> when it is on and \<open>train\<close>
  returned.
\<close>

theorem predict_never_loads_checkpoint:
  "(\<not> do_train args \<and> do_predict args \<longrightarrow>
      run env args =
        (Next,
         snd (inference env (predict_history args (run_setup env args)) Model True)
           @ [Log (PredictReport (metric env) (data_type env)
                     (fst (inference env (predict_history args (run_setup env args))
                             Model True)))]))
   \<and> (do_train args \<and> do_predict args
        \<and> train env args (run_setup env args @ optimizer_setup env args (run_setup env args))
            = (Next, st) \<longrightarrow>
      run env args =
        (Next,
         snd (inference env (predict_history args (trace st)) Model True)
           @ [Log (PredictReport (metric env) (data_type env)
                     (fst (inference env (predict_history args (trace st)) Model True)))]))
   \<and> \<not> list_ex is_load (snd (run env args))"
proof -
  have a: "run env args =
        (Next,
         snd (inference env (predict_history args (run_setup env args)) Model True)
           @ [Log (PredictReport (metric env) (data_type env)
                     (fst (inference env (predict_history args (run_setup env args))
                             Model True)))])"
    if "\<not> do_train args" "do_predict args"
    using that by (simp add: run_def predict_history_def Let_def case_prod_unfold)
  have b: "run env args =
        (Next,
         snd (inference env (predict_history args (trace st)) Model True)
           @ [Log (PredictReport (metric env) (data_type env)
                     (fst (inference env (predict_history args (trace st)) Model True)))])"
    if "do_train args" "do_predict args"
       "train env args (run_setup env args @ optimizer_setup env args (run_setup env args))
            = (Next, st)"
    using that by (simp add: run_def predict_history_def Let_def case_prod_unfold)
  have c: "\<not> list_ex is_load (snd (run env args))"
  proof -
    let ?h0 = "run_setup env args"
    let ?h' = "?h0 @ optimizer_setup env args ?h0"
    have h0: "\<not> list_ex is_load ?h0" by (simp add: run_setup_def)
    have h': "\<not> list_ex is_load ?h'" by (simp add: run_setup_def optimizer_setup_def)
    have pred: "\<not> list_ex is_load
        (snd (inference env (predict_history args h1) Model True)
           @ [Log (PredictReport (metric env) (data_type env) x)])"
      if "\<not> list_ex is_load h1" for h1 x
    proof -
      from inference_no_load [of env "predict_history args h1" Model True] obtain es where
        "snd (inference env (predict_history args h1) Model True) = predict_history args h1 @ es"
        "\<not> list_ex is_load es"
        by blast
      with that show ?thesis by (simp add: predict_history_def)
    qed
    show ?thesis
    proof (cases "do_train args")
      case False
      with h0 pred [OF h0] show ?thesis
        by (simp add: run_def predict_history_def Let_def case_prod_unfold)
    next
      case True
      from train_no_load [of env args ?h'] obtain es where
        "trace (snd (train env args ?h')) = ?h' @ es" "\<not> list_ex is_load es"
        by blast
      with h' have tr: "\<not> list_ex is_load (trace (snd (train env args ?h')))" by simp
      show ?thesis
      proof (cases "fst (train env args ?h')")
        case (Raised e)
        with True tr show ?thesis by (simp add: run_def Let_def case_prod_unfold)
      next
        case Next
        with True tr pred [OF tr] show ?thesis
          by (simp add: run_def predict_history_def Let_def case_prod_unfold)
      next
        case Broke
        with True tr pred [OF tr] show ?thesis
          by (simp add: run_def predict_history_def Let_def case_prod_unfold)
      qed
    qed
  qed
  from a b c show ?thesis by blast
qed

theorem predict_never_loads_checkpoint_witness:
  "\<not> do_train args_predict \<and> do_predict args_predict
   \<and> run env_ex args_predict =
       (Next,
        [TokenizerFromPretrained ''t5-large'', QADataNew TrainData ''train.json'',
         QADataNew DevData ''dev.json'', LoadDataset TrainData, LoadDataloader TrainData,
         LoadDataset DevData, LoadDataloader DevData, ModelFromPretrained ''t5-large'',
         ModelTo Cpu, Log (LoadingCheckpoint ''out/best-model.pt''), ModelEvalMode,
         BatchTo Cpu (9, 10, 11, 12), Generate Model 9 10 4 20 True, DecodeBatch 19,
         SavePredictions [[''answer'']], Evaluate [[''answer'']],
         Log (PredictReport ''EM'' ''dev'' (Fin 1))])"
  using predict_never_loads_checkpoint [of args_predict env_ex "train_init []"]
  by (simp add: args_predict_def run_setup_def predict_history_def run_defs ex_defs)

end
